theory Spec2Isabelle
  imports Main "HOL-Library.Word"
begin

section \<open>Go library functions called by Download\<close>

text \<open>
  \<^verbatim>\<open>Download\<close> (package http of the repository) calls a handful of functions of
  the Go standard library on strings and paths. They are modelled here for Unix paths
  (separator \<open>/\<close>), following the library's documented behaviour; Go strings are byte
  strings, that is \<open>string\<close>.
\<close>

type_synonym byte = "8 word"

definition IsPathSeparator :: "char \<Rightarrow> bool" where
  "IsPathSeparator c = (c = CHR ''/'')"

text \<open>
  \<^verbatim>\<open>filepath.Ext\<close>: scan from the end of the path; stop at a separator with the empty
  string, at a dot with the suffix that starts there. The first argument holds the bytes
  still to scan (last byte first), the second the suffix already passed.
\<close>

fun Ext_scan :: "string \<Rightarrow> string \<Rightarrow> string" where
  "Ext_scan [] suf = ''''"
| "Ext_scan (c # cs) suf =
     (if IsPathSeparator c then ''''
      else if c = CHR ''.'' then c # suf
      else Ext_scan cs (c # suf))"

definition Ext :: "string \<Rightarrow> string" where
  "Ext p = Ext_scan (rev p) []"

text \<open>
  \<^verbatim>\<open>filepath.Base\<close>: the last element of the path, trailing separators removed first;
  \<open>.\<close> for the empty path and a single separator for a path of separators only.
\<close>

definition Base :: "string \<Rightarrow> string" where
  "Base p =
     (if p = '''' then ''.''
      else
        (let q = rev (dropWhile IsPathSeparator (rev p));
             e = rev (takeWhile (\<lambda>c. \<not> IsPathSeparator c) (rev q))
         in if e = '''' then ''/'' else e))"

text \<open>
  \<^verbatim>\<open>strings.LastIndex(s, substr)\<close>: the index of the last occurrence of \<open>substr\<close> in
  \<open>s\<close>, or \<open>-1\<close>.
\<close>

definition LastIndex :: "string \<Rightarrow> string \<Rightarrow> int" where
  "LastIndex s substr =
     (case filter (\<lambda>i. take (length substr) (drop i s) = substr) (rev [0..<Suc (length s)]) of
        [] \<Rightarrow> - 1
      | i # _ \<Rightarrow> int i)"

text \<open>
  \<^verbatim>\<open>strings.Replace(s, old, new, 1)\<close>: the first occurrence of \<open>old\<close> in \<open>s\<close> is replaced
  by \<open>new\<close>; \<open>s\<close> is returned unchanged when there is none.
\<close>

fun Replace_first :: "string \<Rightarrow> string \<Rightarrow> string \<Rightarrow> string" where
  "Replace_first [] old new = (if old = [] then new else [])"
| "Replace_first (c # cs) old new =
     (if take (length old) (c # cs) = old then new @ drop (length old) (c # cs)
      else c # Replace_first cs old new)"

text \<open>
  \<^verbatim>\<open>filepath.Clean\<close> and \<^verbatim>\<open>filepath.Dir\<close>. \<open>Clean\<close> drops empty and \<open>.\<close> elements,
  lets a \<open>..\<close> element cancel the element before it (at the root it is dropped, in a
  relative path a leading run of \<open>..\<close> is kept), and joins what is left; the empty result
  is \<open>.\<close>. \<open>Dir\<close> cleans the path up to and including its last separator.
\<close>

fun split_path :: "string \<Rightarrow> string list" where
  "split_path [] = [[]]"
| "split_path (c # cs) =
     (if IsPathSeparator c then [] # split_path cs
      else (case split_path cs of [] \<Rightarrow> [[c]] | e # es \<Rightarrow> (c # e) # es))"

fun clean_step :: "bool \<Rightarrow> string list \<Rightarrow> string \<Rightarrow> string list" where
  "clean_step rooted out e =
     (if e = '''' \<or> e = ''.'' then out
      else if e = ''..'' then
        (case out of
           [] \<Rightarrow> if rooted then [] else [e]
         | el # rest \<Rightarrow> if el = ''..'' then e # out else rest)
      else e # out)"

fun join_path :: "string list \<Rightarrow> string" where
  "join_path [] = ''''"
| "join_path [e] = e"
| "join_path (e # es) = e @ ''/'' @ join_path es"

definition Clean :: "string \<Rightarrow> string" where
  "Clean p =
     (if p = '''' then ''.''
      else
        (let rooted = IsPathSeparator (hd p);
             out = join_path (rev (foldl (clean_step rooted) [] (split_path p)))
         in if rooted then ''/'' @ out else if out = '''' then ''.'' else out))"

definition Dir :: "string \<Rightarrow> string" where
  "Dir p = Clean (rev (dropWhile (\<lambda>c. \<not> IsPathSeparator c) (rev p)))"

text \<open>
  \<^verbatim>\<open>fmt.Sprintf("%v", n)\<close> for an \<^verbatim>\<open>int64\<close>: the decimal digits, with a minus sign for
  a negative number.
\<close>

fun digits :: "nat \<Rightarrow> string" where
  "digits n = (if n < 10 then [''0123456789'' ! n] else digits (n div 10) @ [''0123456789'' ! (n mod 10)])"

declare digits.simps [simp del]

definition Sprint_int :: "int \<Rightarrow> string" where
  "Sprint_int n = (if n < 0 then CHR ''-'' # digits (nat (- n)) else digits (nat n))"

section \<open>The data of a download\<close>

text \<open>
  The variadic \<^verbatim>\<open>msgs ...interface{}\<close>: dynamically typed values. \<^verbatim>\<open>Download\<close> asserts
  \<^verbatim>\<open>msgs[0].(int)\<close>, \<^verbatim>\<open>msgs[1].(int)\<close> and \<^verbatim>\<open>msgs[2].(bool)\<close>; an assertion on a value
  of another type panics.
\<close>

datatype arg = IntArg int | BoolArg bool | StrArg string

text \<open>The response of the probe \<^verbatim>\<open>http.Get(uri)\<close>: its headers and content length.\<close>

record hresponse =
  Header :: "(string \<times> string) list"
  ContentLength :: int

text \<open>\<^verbatim>\<open>Header.Get\<close>: the empty string for an absent header.\<close>

definition Header_Get :: "hresponse \<Rightarrow> string \<Rightarrow> string" where
  "Header_Get h k = (case map_of (Header h) k of None \<Rightarrow> '''' | Some v \<Rightarrow> v)"

text \<open>The transfer request built by \<^verbatim>\<open>http.NewRequest("GET", uri, nil)\<close> and its headers.\<close>

record request =
  Method :: string
  URL :: string
  ReqHeader :: "(string \<times> string) list"

text \<open>\<^verbatim>\<open>req.Header.Set(k, v)\<close>: the header \<open>k\<close> now has the value \<open>v\<close> and no other.\<close>

definition Header_Set :: "string \<Rightarrow> string \<Rightarrow> request \<Rightarrow> request" where
  "Header_Set k v req = req\<lparr>ReqHeader := (k, v) # filter (\<lambda>kv. fst kv \<noteq> k) (ReqHeader req)\<rparr>"

text \<open>
  The response of \<^verbatim>\<open>client.Do(req)\<close>. \<open>Body\<close> holds the bytes the body delivers;
  \<open>BodyErr\<close> is the error that ends the body after them (for instance the client's
  timeout), \<open>None\<close> when it ends with EOF.
\<close>

record response =
  StatusCode :: int
  Status :: string
  RespContentLength :: int
  Body :: "byte list"
  BodyErr :: "string option"

text \<open>The success value: the map with the keys \<^verbatim>\<open>filename\<close>, \<^verbatim>\<open>dir\<close> and \<^verbatim>\<open>path\<close>.\<close>

record result =
  filename :: string
  dir :: string
  path :: string

text \<open>
  The errors \<^verbatim>\<open>Download\<close> returns, one constructor for each \<^verbatim>\<open>return nil, err\<close> of the
  source, and \<open>Panic\<close> for a failed type assertion on \<^verbatim>\<open>msgs\<close>.
\<close>

datatype error =
    InvalidTarget
  | ProbeFailed string
  | RemoveFailed string
  | NewRequestFailed string
  | DoFailed string
  | BadStatus int string
  | OpenFailed string
  | CopyFailed string
  | SizeMismatch
  | Panic

text \<open>
  What happens outside the function is recorded as a trace of events, oldest first.
  \<open>EvCall\<close> marks the entry of one invocation of \<^verbatim>\<open>Download\<close> (one attempt) with its
  target and \<^verbatim>\<open>msgs\<close>; the other events are the calls that reach the file system or the
  network.
\<close>

datatype event =
    EvCall string "arg list"
  | EvMkdirAll string
  | EvGet string
  | EvRemove string
  | EvDo int request
  | EvOpenFile string
  | EvWrite string "byte list"

text \<open>
  The state: the regular files with their contents, the directories, and the trace.
\<close>

record state =
  files :: "string \<rightharpoonup> byte list"
  dirs :: "string set"
  trace :: "event list"

text \<open>
  The environment: how the network and the file system answer. Each answer may depend
  on the time of the call, which is the number of events so far. \<open>client_Do\<close> also takes
  the client's timeout in seconds. \<open>MkdirAll_err\<close> answers \<open>Some k\<close> when creating
  the directories fails after \<open>k\<close> of them have been made. \<open>Write_err\<close> answers \<open>Some (k, e)\<close> when writing the
  given bytes fails with \<open>e\<close> after \<open>k\<close> of them. \<open>ExtensionsByType\<close> is the MIME table
  of \<^verbatim>\<open>mime.ExtensionsByType\<close> (\<open>None\<close> for a content type it cannot parse).
\<close>

record env =
  MkdirAll_err :: "nat \<Rightarrow> string \<Rightarrow> nat option"
  http_Get :: "nat \<Rightarrow> string \<Rightarrow> string + hresponse"
  ExtensionsByType :: "string \<Rightarrow> string list option"
  Remove_err :: "nat \<Rightarrow> string \<Rightarrow> string option"
  NewRequest_err :: "string \<Rightarrow> string option"
  client_Do :: "nat \<Rightarrow> int \<Rightarrow> request \<Rightarrow> string + response"
  OpenFile_err :: "nat \<Rightarrow> string \<Rightarrow> string option"
  Write_err :: "nat \<Rightarrow> string \<Rightarrow> byte list \<Rightarrow> (nat \<times> string) option"

definition now :: "state \<Rightarrow> nat" where
  "now s = length (trace s)"

definition log :: "event \<Rightarrow> state \<Rightarrow> state" where
  "log e s = s\<lparr>trace := trace s @ [e]\<rparr>"

subsection \<open>The file-system collaborator\<close>

text \<open>
  Modelled from the spec: \<^verbatim>\<open>helper.IsDir\<close> and \<^verbatim>\<open>helper.IsFile\<close> belong to the
  repository's package \<^verbatim>\<open>qq-zone/utils/helper\<close>, which is not among the sources; the spec
  describes them as the directory-exists check and the check that a local file exists.
\<close>

definition IsDir :: "state \<Rightarrow> string \<Rightarrow> bool" where
  "IsDir s p = (p \<in> dirs s)"

definition IsFile :: "state \<Rightarrow> string \<Rightarrow> bool" where
  "IsFile s p = (files s p \<noteq> None)"

text \<open>\<^verbatim>\<open>os.Stat(p)\<close> followed by \<^verbatim>\<open>Size()\<close>: \<open>None\<close> is the nil \<^verbatim>\<open>FileInfo\<close>.\<close>

definition Stat :: "state \<Rightarrow> string \<Rightarrow> int option" where
  "Stat s p = (case files s p of None \<Rightarrow> None | Some bs \<Rightarrow> Some (int (length bs)))"

text \<open>
  \<^verbatim>\<open>os.MkdirAll(path)\<close> makes the missing parents first and the directory itself last.
  The parent is the path before the separator that precedes the last element (trailing
  separators set aside); there is none when that separator is the first byte or when
  the path has a single element. \<open>last_elem_start\<close> is the index \<^verbatim>\<open>j\<close> at which the last
  element starts, \<open>MkdirAll_paths\<close> the directories in the order they are made.
\<close>

definition last_elem_start :: "string \<Rightarrow> nat" where
  "last_elem_start p =
     length (dropWhile (\<lambda>c. \<not> IsPathSeparator c) (dropWhile IsPathSeparator (rev p)))"

lemma last_elem_start_le: "last_elem_start p \<le> length p"
proof -
  have "last_elem_start p \<le> length (dropWhile IsPathSeparator (rev p))"
    unfolding last_elem_start_def by (rule length_dropWhile_le)
  also have "\<dots> \<le> length (rev p)" by (rule length_dropWhile_le)
  finally show ?thesis by simp
qed

function MkdirAll_paths :: "string \<Rightarrow> string list" where
  "MkdirAll_paths p =
     (if 1 < last_elem_start p then MkdirAll_paths (take (last_elem_start p - 1) p) else []) @ [p]"
  by pat_completeness auto
termination
proof (relation "measure length")
  show "wf (measure length)" by simp
next
  fix p :: string
  assume "1 < last_elem_start p"
  with last_elem_start_le [of p] show "(take (last_elem_start p - 1) p, p) \<in> measure length"
    by simp
qed

declare MkdirAll_paths.simps [simp del]

text \<open>
  The call as \<^verbatim>\<open>Download\<close> makes it: the error is ignored, so the state only gains the
  directories that were made before a failure, all of them when there is none.
\<close>

definition MkdirAll :: "env \<Rightarrow> state \<Rightarrow> string \<Rightarrow> state" where
  "MkdirAll env s d =
     (case MkdirAll_err env (now s) d of
        Some k \<Rightarrow> log (EvMkdirAll d) (s\<lparr>dirs := dirs s \<union> set (take k (MkdirAll_paths d))\<rparr>)
      | None \<Rightarrow> log (EvMkdirAll d) (s\<lparr>dirs := dirs s \<union> set (MkdirAll_paths d)\<rparr>))"

text \<open>\<^verbatim>\<open>os.Remove\<close>: the error, and the state after the call.\<close>

definition Remove :: "env \<Rightarrow> state \<Rightarrow> string \<Rightarrow> string option \<times> state" where
  "Remove env s p =
     (case Remove_err env (now s) p of
        Some e \<Rightarrow> (Some e, log (EvRemove p) s)
      | None \<Rightarrow> (None, log (EvRemove p) (s\<lparr>files := (files s)(p := None)\<rparr>)))"

text \<open>
  \<^verbatim>\<open>os.OpenFile(p, O_RDWR|O_APPEND|O_CREATE, 0666)\<close>: an absent file is created empty,
  an existing one keeps its bytes.
\<close>

definition OpenFile :: "env \<Rightarrow> state \<Rightarrow> string \<Rightarrow> string option \<times> state" where
  "OpenFile env s p =
     (case OpenFile_err env (now s) p of
        Some e \<Rightarrow> (Some e, log (EvOpenFile p) s)
      | None \<Rightarrow>
          (None, log (EvOpenFile p)
             (s\<lparr>files := (files s)(p \<mapsto> (case files s p of None \<Rightarrow> [] | Some bs \<Rightarrow> bs))\<rparr>)))"

text \<open>
  \<^verbatim>\<open>io.Copy(file, reader)\<close> on a file opened for appending: \<open>data\<close> are the bytes the
  reader delivers and \<open>rerr\<close> the error that ends it. The bytes written are appended to
  the file; the error returned is the write error if there is one, else the read error.
\<close>

definition append_file :: "string \<Rightarrow> byte list \<Rightarrow> state \<Rightarrow> state" where
  "append_file p bs s =
     log (EvWrite p bs)
       (s\<lparr>files := (files s)(p \<mapsto> (case files s p of None \<Rightarrow> [] | Some old \<Rightarrow> old) @ bs)\<rparr>)"

definition Copy :: "env \<Rightarrow> state \<Rightarrow> string \<Rightarrow> byte list \<Rightarrow> string option \<Rightarrow> string option \<times> state" where
  "Copy env s p data rerr =
     (case Write_err env (now s) p data of
        Some (k, e) \<Rightarrow> (Some e, append_file p (take k data) s)
      | None \<Rightarrow> (rerr, append_file p data s))"

text \<open>
  \<^verbatim>\<open>io.LimitReader(body, n)\<close>: at most \<open>n\<close> bytes of the body (none when \<open>n \<le> 0\<close>); the
  body's error is only met when the body ends before the limit.
\<close>

definition LimitReader :: "byte list \<Rightarrow> string option \<Rightarrow> int \<Rightarrow> byte list \<times> string option" where
  "LimitReader body berr n =
     (take (nat n) body, if length body < nat n then berr else None)"

section \<open>Download\<close>

text \<open>
  One invocation of \<^verbatim>\<open>Download\<close> either returns (an error or the result) or ends in
  \<^verbatim>\<open>return Download(uri, target, retry-1, timeout, progressbar)\<close>. \<open>Recurse\<close> holds the
  arguments of that recursive call and the state it starts from.
\<close>

datatype outcome =
    Return "error + result" state
  | Recurse string int int bool state

text \<open>
  The pattern at every retried error of the source:
  \<^verbatim>\<open>if retry > 0 { return Download(uri, target, retry-1, timeout, progressbar) }
  else { return nil, err }\<close>.
\<close>

definition retry_or_fail :: "int \<Rightarrow> string \<Rightarrow> int \<Rightarrow> bool \<Rightarrow> state \<Rightarrow> error \<Rightarrow> outcome" where
  "retry_or_fail retry target timeout progressbar s err =
     (if retry > 0 then Recurse target (retry - 1) timeout progressbar s
      else Return (Inl err) s)"

subsection \<open>Lines 119-131: file name, extension and directory of the target\<close>

definition resolve :: "string \<Rightarrow> error + (string \<times> string \<times> string)" where
  "resolve target =
     (let filename = Base target; entension = Ext target in
      if entension \<noteq> '''' then
        Inr (Replace_first filename entension '''', entension, Dir target)
      else
        (let lasti = LastIndex target ''/'' in
         if lasti = - 1 then Inl InvalidTarget
         else Inr (filename, entension, take (nat lasti) target)))"

subsection \<open>Lines 133-135: the directory is created when it is missing\<close>

definition ensure_dir :: "env \<Rightarrow> state \<Rightarrow> string \<Rightarrow> state" where
  "ensure_dir env s targetDir = (if \<not> IsDir s targetDir then MkdirAll env s targetDir else s)"

subsection \<open>Lines 137-150: retry, timeout and progressbar from msgs\<close>

fun as_int :: "arg \<Rightarrow> error + int" where
  "as_int (IntArg n) = Inr n"
| "as_int _ = Inl Panic"

fun as_bool :: "arg \<Rightarrow> error + bool" where
  "as_bool (BoolArg b) = Inr b"
| "as_bool _ = Inl Panic"

definition parse_msgs :: "arg list \<Rightarrow> error + (int \<times> int \<times> bool)" where
  "parse_msgs msgs =
     (case (if length msgs > 0 then as_int (msgs ! 0) else Inr 0) of
        Inl e \<Rightarrow> Inl e
      | Inr retry \<Rightarrow>
          (case (if length msgs > 1 then as_int (msgs ! 1) else Inr 300) of
             Inl e \<Rightarrow> Inl e
           | Inr timeout \<Rightarrow>
               (case (if length msgs > 2 then as_bool (msgs ! 2) else Inr False) of
                  Inl e \<Rightarrow> Inl e
                | Inr progressbar \<Rightarrow> Inr (retry, timeout, progressbar))))"

subsection \<open>Lines 283-295: the size of the file against the content length\<close>

definition Download_validate ::
  "state \<Rightarrow> string \<Rightarrow> string \<Rightarrow> string \<Rightarrow> int \<Rightarrow> int \<Rightarrow> outcome" where
  "Download_validate s target fname targetDir sz contentLength =
     (let sz' = (case Stat s target of Some n \<Rightarrow> n | None \<Rightarrow> sz) in
      if contentLength \<noteq> sz' then Return (Inl SizeMismatch) s
      else Return (Inr \<lparr>filename = fname, dir = targetDir, path = target\<rparr>) s)"

subsection \<open>Lines 249-281: the file is opened for appending and the body copied\<close>

definition Download_copy ::
  "env \<Rightarrow> state \<Rightarrow> string \<Rightarrow> string \<Rightarrow> string \<Rightarrow> int \<Rightarrow> int \<Rightarrow> bool \<Rightarrow> int \<Rightarrow> int \<Rightarrow>
   response \<Rightarrow> outcome" where
  "Download_copy env s target fname targetDir retry timeout progressbar sz contentLength resp =
     (case OpenFile env s target of
        (Some e, s1) \<Rightarrow> retry_or_fail retry target timeout progressbar s1 (OpenFailed e)
      | (None, s1) \<Rightarrow>
          (let (data, rerr) =
                 (if progressbar then LimitReader (Body resp) (BodyErr resp) (RespContentLength resp)
                  else (Body resp, BodyErr resp))
           in case Copy env s1 target data rerr of
                (Some e, s2) \<Rightarrow> retry_or_fail retry target timeout progressbar s2 (CopyFailed e)
              | (None, s2) \<Rightarrow> Download_validate s2 target fname targetDir sz contentLength))"

subsection \<open>Lines 209-247: the transfer request\<close>

definition user_agent :: string where
  "user_agent = ''Mozilla/5.0 (Windows NT 10.0; WOW64) AppleWebKit/537.36 (KHTML, like Gecko) Chrome/78.0.3904.108 Safari/537.36''"

definition NewRequest :: "string \<Rightarrow> request" where
  "NewRequest uri = \<lparr>Method = ''GET'', URL = uri, ReqHeader = []\<rparr>"

text \<open>Lines 218-222: the request with its headers set.\<close>

definition transfer_request :: "string \<Rightarrow> bool \<Rightarrow> int \<Rightarrow> request" where
  "transfer_request uri ranges sz =
     (let req = Header_Set ''User-Agent'' user_agent (NewRequest uri) in
      if ranges then
        Header_Set ''Range'' (''bytes='' @ Sprint_int sz @ ''-'')
          (Header_Set ''Accept-Ranges'' ''bytes'' req)
      else req)"

definition Download_transfer ::
  "env \<Rightarrow> state \<Rightarrow> string \<Rightarrow> string \<Rightarrow> string \<Rightarrow> string \<Rightarrow> int \<Rightarrow> int \<Rightarrow> bool \<Rightarrow> bool \<Rightarrow>
   int \<Rightarrow> int \<Rightarrow> outcome" where
  "Download_transfer env s uri target fname targetDir retry timeout progressbar ranges sz
     contentLength =
     (case NewRequest_err env uri of
        Some e \<Rightarrow> retry_or_fail retry target timeout progressbar s (NewRequestFailed e)
      | None \<Rightarrow>
          (let req = transfer_request uri ranges sz;
               s1 = log (EvDo timeout req) s
           in case client_Do env (now s) timeout req of
                Inl e \<Rightarrow> retry_or_fail retry target timeout progressbar s1 (DoFailed e)
              | Inr resp \<Rightarrow>
                  if StatusCode resp < 200 \<or> StatusCode resp \<ge> 300 then
                    retry_or_fail retry target timeout progressbar s1
                      (BadStatus (StatusCode resp) (Status resp))
                  else
                    Download_copy env s1 target fname targetDir retry timeout progressbar sz
                      contentLength resp))"

subsection \<open>Lines 160-207: range support, inferred extension, the existing file\<close>

definition supports_ranges :: "hresponse \<Rightarrow> bool" where
  "supports_ranges hresp =
     (Header_Get hresp ''Content-Range'' \<noteq> '''' \<or> Header_Get hresp ''Accept-Ranges'' = ''bytes'')"

text \<open>
  Lines 169-177: the file name and the target after the extension is inferred from the
  content type (unchanged when the target has an extension, the response no content
  type, or the MIME table no extension for it).
\<close>

definition infer :: "env \<Rightarrow> hresponse \<Rightarrow> string \<Rightarrow> string \<Rightarrow> string \<Rightarrow> string \<Rightarrow> string \<times> string" where
  "infer env hresp fname entension targetDir target =
     (let contentType = Header_Get hresp ''Content-Type'' in
      if contentType \<noteq> '''' \<and> entension = '''' then
        (case ExtensionsByType env contentType of
           Some (e # es) \<Rightarrow> (fname @ e, targetDir @ ''/'' @ (fname @ e))
         | _ \<Rightarrow> (fname, target))
      else (fname, target))"

text \<open>
  Lines 184-199: the size of the existing file when ranges are supported; without range
  support the existing file is removed. The result is the error of \<^verbatim>\<open>os.Remove\<close>, the
  value of \<^verbatim>\<open>size\<close> and the state.
\<close>

definition existing_file :: "env \<Rightarrow> state \<Rightarrow> string \<Rightarrow> bool \<Rightarrow> string option \<times> int \<times> state" where
  "existing_file env s target ranges =
     (if IsFile s target then
        (if ranges then (None, (case Stat s target of Some n \<Rightarrow> n | None \<Rightarrow> 0), s)
         else (case Remove env s target of (err, s1) \<Rightarrow> (err, 0, s1)))
      else (None, 0, s))"

definition Download_plan ::
  "env \<Rightarrow> state \<Rightarrow> string \<Rightarrow> string \<Rightarrow> string \<Rightarrow> string \<Rightarrow> string \<Rightarrow> int \<Rightarrow> int \<Rightarrow> bool \<Rightarrow>
   hresponse \<Rightarrow> outcome" where
  "Download_plan env s uri target0 fname0 entension targetDir retry timeout progressbar hresp =
     (let ranges = supports_ranges hresp;
          (fname, target) = infer env hresp fname0 entension targetDir target0;
          contentLength = ContentLength hresp
      in case existing_file env s target ranges of
           (Some e, sz, s1) \<Rightarrow> retry_or_fail retry target timeout progressbar s1 (RemoveFailed e)
         | (None, sz, s1) \<Rightarrow>
             if sz = contentLength then
               Return (Inr \<lparr>filename = fname, dir = targetDir, path = target\<rparr>) s1
             else
               Download_transfer env s1 uri target fname targetDir retry timeout progressbar
                 ranges sz contentLength)"

subsection \<open>Lines 118-159: one invocation, up to the probe\<close>

definition Download_body :: "env \<Rightarrow> state \<Rightarrow> string \<Rightarrow> string \<Rightarrow> arg list \<Rightarrow> outcome" where
  "Download_body env s0 uri target msgs =
     (let s = log (EvCall target msgs) s0 in
      case resolve target of
        Inl e \<Rightarrow> Return (Inl e) s
      | Inr (fname, entension, targetDir) \<Rightarrow>
          (let s1 = ensure_dir env s targetDir in
           case parse_msgs msgs of
             Inl e \<Rightarrow> Return (Inl e) s1
           | Inr (retry, timeout, progressbar) \<Rightarrow>
               (let s2 = log (EvGet uri) s1 in
                case http_Get env (now s1) uri of
                  Inl e \<Rightarrow> retry_or_fail retry target timeout progressbar s2 (ProbeFailed e)
                | Inr hresp \<Rightarrow>
                    Download_plan env s2 uri target fname entension targetDir retry timeout
                      progressbar hresp)))"

subsection \<open>The recursion\<close>

text \<open>The retry count an invocation reads from its \<^verbatim>\<open>msgs\<close> (0 when there is none).\<close>

definition budget :: "arg list \<Rightarrow> int" where
  "budget msgs = (case msgs of IntArg n # _ \<Rightarrow> n | _ \<Rightarrow> 0)"

lemma retry_or_fail_Recurse:
  "retry_or_fail retry target timeout pb s err = Recurse t' r' to' pb' s' \<Longrightarrow>
   0 < retry \<and> r' = retry - 1 \<and> t' = target \<and> to' = timeout \<and> pb' = pb \<and> s' = s"
  by (simp add: retry_or_fail_def split: if_splits)

lemma parse_msgs_budget: "parse_msgs msgs = Inr (retry, timeout, pb) \<Longrightarrow> budget msgs = retry"
  by (cases msgs; cases "hd msgs")
     (auto simp: parse_msgs_def budget_def split: if_splits sum.splits)

lemma Download_validate_Recurse [simp]:
  "Download_validate s target fname targetDir sz cl \<noteq> Recurse t' r' to' pb' s'"
  by (simp add: Download_validate_def Let_def)

lemma Download_copy_Recurse:
  "Download_copy env s target fname targetDir retry timeout pb sz cl resp = Recurse t' r' to' pb' s' \<Longrightarrow>
   0 < retry \<and> r' = retry - 1 \<and> to' = timeout \<and> pb' = pb"
  by (auto simp: Download_copy_def Let_def split: prod.splits option.splits if_splits
       dest!: retry_or_fail_Recurse)

lemma Download_transfer_Recurse:
  "Download_transfer env s uri target fname targetDir retry timeout pb ranges sz cl = Recurse t' r' to' pb' s' \<Longrightarrow>
   0 < retry \<and> r' = retry - 1 \<and> to' = timeout \<and> pb' = pb"
  by (auto simp: Download_transfer_def Let_def split: option.splits sum.splits if_splits
       dest!: retry_or_fail_Recurse Download_copy_Recurse)

lemma Download_plan_Recurse:
  "Download_plan env s uri target fname entension targetDir retry timeout pb hresp = Recurse t' r' to' pb' s' \<Longrightarrow>
   0 < retry \<and> r' = retry - 1 \<and> to' = timeout \<and> pb' = pb"
  by (auto simp: Download_plan_def Let_def split: prod.splits option.splits if_splits
       dest!: retry_or_fail_Recurse Download_transfer_Recurse)

lemma Download_body_Recurse:
  "Download_body env s uri target msgs = Recurse t' r' to' pb' s' \<Longrightarrow>
   0 < budget msgs \<and> r' = budget msgs - 1"
  by (auto simp: Download_body_def Let_def split: sum.splits prod.splits
       dest!: retry_or_fail_Recurse Download_plan_Recurse parse_msgs_budget)

text \<open>
  \<^verbatim>\<open>Download\<close> itself: the value an invocation returns, or the value of the recursive
  call it ends in. The recursive call gets the target as the invocation left it (line 175
  may have replaced it), one retry less, and the timeout and progress flag it read.
\<close>

function Download :: "env \<Rightarrow> state \<Rightarrow> string \<Rightarrow> string \<Rightarrow> arg list \<Rightarrow> (error + result) \<times> state" where
  "Download env s uri target msgs =
     (case Download_body env s uri target msgs of
        Return r s' \<Rightarrow> (r, s')
      | Recurse target' retry' timeout progressbar s' \<Rightarrow>
          Download env s' uri target' [IntArg retry', IntArg timeout, BoolArg progressbar])"
  by pat_completeness auto
termination
proof (relation "measure (\<lambda>(env, s, uri, target, msgs). nat (budget msgs))")
  show "wf (measure (\<lambda>(env, s, uri, target, msgs). nat (budget msgs)))" by simp
next
  fix env s uri target msgs t' r' to' pb' s'
  assume "Download_body env s uri target msgs = Recurse t' r' to' pb' s'"
  then have "0 < budget msgs \<and> r' = budget msgs - 1" by (rule Download_body_Recurse)
  then show "((env, s', uri, t', [IntArg r', IntArg to', BoolArg pb']), (env, s, uri, target, msgs))
     \<in> measure (\<lambda>(env, s, uri, target, msgs). nat (budget msgs))"
    by (simp add: budget_def)
qed

declare Download.simps [simp del]

section \<open>Reading the trace\<close>

text \<open>
  The attempts of a call are the invocations of \<^verbatim>\<open>Download\<close> it leads to: the
  \<open>EvCall\<close> events among the events the call adds to the trace. \<open>budgets\<close> lists
  the retry counts these invocations read, oldest first.
\<close>

fun is_call :: "event \<Rightarrow> bool" where
  "is_call (EvCall t m) = True"
| "is_call _ = False"

fun call_budget :: "event \<Rightarrow> int" where
  "call_budget (EvCall t m) = budget m"
| "call_budget _ = 0"

definition attempts :: "event list \<Rightarrow> nat" where
  "attempts evs = length (filter is_call evs)"

definition budgets :: "event list \<Rightarrow> int list" where
  "budgets evs = map call_budget (filter is_call evs)"

definition new_events :: "state \<Rightarrow> state \<Rightarrow> event list" where
  "new_events s s' = drop (length (trace s)) (trace s')"

fun state_of :: "outcome \<Rightarrow> state" where
  "state_of (Return r s) = s"
| "state_of (Recurse t r to pb s) = s"

text \<open>
  The errors whose return the source guards with the retry pattern, that is all of them
  but three: the malformed target (line 128), a panic, and the size mismatch, which
  line 289 returns with no guard although the spec lists it among the retryable errors.
\<close>

fun retry_guarded :: "error \<Rightarrow> bool" where
  "retry_guarded InvalidTarget = False"
| "retry_guarded SizeMismatch = False"
| "retry_guarded Panic = False"
| "retry_guarded _ = True"

lemma state_of_retry_or_fail [simp]:
  "state_of (retry_or_fail retry target timeout pb s err) = s"
  by (simp add: retry_or_fail_def)

lemma trace_log [simp]: "trace (log e s) = trace s @ [e]"
  by (simp add: log_def)

lemma Download_validate_state [simp]:
  "state_of (Download_validate s target fname targetDir sz cl) = s"
  by (simp add: Download_validate_def Let_def)

lemma Download_copy_trace:
  "\<exists>evs. trace (state_of (Download_copy env s target fname targetDir retry timeout pb sz cl resp))
      = trace s @ evs \<and> filter is_call evs = []"
  by (auto simp: Download_copy_def OpenFile_def Copy_def append_file_def Let_def
       split: prod.splits option.splits if_splits)

lemma Download_transfer_trace:
  "\<exists>evs. trace (state_of (Download_transfer env s uri target fname targetDir retry timeout pb ranges sz cl))
      = trace s @ evs \<and> filter is_call evs = []"
proof (cases "NewRequest_err env uri")
  case (Some e)
  then show ?thesis by (simp add: Download_transfer_def)
next
  case None
  show ?thesis
  proof (cases "client_Do env (now s) timeout (transfer_request uri ranges sz)")
    case (Inl e)
    with None show ?thesis by (simp add: Download_transfer_def Let_def)
  next
    case (Inr resp)
    obtain evs where
      "trace (state_of (Download_copy env (log (EvDo timeout (transfer_request uri ranges sz)) s)
          target fname targetDir retry timeout pb sz cl resp))
        = trace (log (EvDo timeout (transfer_request uri ranges sz)) s) @ evs" "filter is_call evs = []"
      using Download_copy_trace by blast
    with None Inr show ?thesis by (simp add: Download_transfer_def Let_def)
  qed
qed

lemma existing_file_trace:
  "existing_file env s target ranges = (err, sz, s1) \<Longrightarrow>
   \<exists>evs. trace s1 = trace s @ evs \<and> filter is_call evs = []"
  by (auto simp: existing_file_def Remove_def split: if_splits option.splits prod.splits)

lemma Download_plan_trace:
  "\<exists>evs. trace (state_of (Download_plan env s uri target fname entension targetDir retry timeout pb hresp))
      = trace s @ evs \<and> filter is_call evs = []"
proof -
  obtain fname' target' where inf: "infer env hresp fname entension targetDir target = (fname', target')"
    by (cases "infer env hresp fname entension targetDir target")
  obtain err sz s1 where ex: "existing_file env s target' (supports_ranges hresp) = (err, sz, s1)"
    by (cases "existing_file env s target' (supports_ranges hresp)")
  from existing_file_trace [OF ex] obtain evs1 where
    e1: "trace s1 = trace s @ evs1" "filter is_call evs1 = []" by blast
  obtain evs2 where
    e2: "trace (state_of (Download_transfer env s1 uri target' fname' targetDir retry timeout pb
           (supports_ranges hresp) sz (ContentLength hresp))) = trace s1 @ evs2" "filter is_call evs2 = []"
    using Download_transfer_trace by blast
  show ?thesis
    using inf ex e1 e2 by (cases err) (auto simp: Download_plan_def Let_def)
qed

lemma ensure_dir_trace:
  "\<exists>evs. trace (ensure_dir env s d) = trace s @ evs \<and> filter is_call evs = []"
  by (simp add: ensure_dir_def MkdirAll_def split: option.splits)

lemma Download_body_trace:
  "\<exists>evs. trace (state_of (Download_body env s uri target msgs))
      = trace s @ EvCall target msgs # evs \<and> filter is_call evs = []"
proof (cases "resolve target")
  case (Inl e)
  then show ?thesis by (simp add: Download_body_def)
next
  case (Inr res)
  then obtain fname entension targetDir where res: "resolve target = Inr (fname, entension, targetDir)"
    by (cases res) auto
  let ?s = "log (EvCall target msgs) s"
  obtain evs1 where e1: "trace (ensure_dir env ?s targetDir) = trace ?s @ evs1" "filter is_call evs1 = []"
    using ensure_dir_trace by blast
  show ?thesis
  proof (cases "parse_msgs msgs")
    case (Inl e)
    with res e1 show ?thesis by (simp add: Download_body_def Let_def)
  next
    case (Inr p)
    then obtain retry timeout pb where p: "parse_msgs msgs = Inr (retry, timeout, pb)"
      by (cases p) auto
    show ?thesis
    proof (cases "http_Get env (now (ensure_dir env ?s targetDir)) uri")
      case (Inl e)
      with res p e1 show ?thesis by (simp add: Download_body_def Let_def)
    next
      case (Inr hresp)
      obtain evs2 where
        "trace (state_of (Download_plan env (log (EvGet uri) (ensure_dir env ?s targetDir)) uri target fname
            entension targetDir retry timeout pb hresp))
          = trace (log (EvGet uri) (ensure_dir env ?s targetDir)) @ evs2" "filter is_call evs2 = []"
        using Download_plan_trace by blast
      with res p e1 Inr show ?thesis by (simp add: Download_body_def Let_def)
    qed
  qed
qed

section \<open>Attempts and the retry count\<close>

lemma retry_or_fail_Return:
  "retry_or_fail retry target timeout pb s err = Return r s' \<Longrightarrow> retry \<le> 0 \<and> r = Inl err \<and> s' = s"
  by (simp add: retry_or_fail_def split: if_splits)

lemma Download_validate_Return:
  "Download_validate s target fname targetDir sz cl = Return (Inl e) s' \<Longrightarrow> e = SizeMismatch"
  by (simp add: Download_validate_def Let_def split: if_splits)

lemma Download_copy_Return:
  "Download_copy env s target fname targetDir retry timeout pb sz cl resp = Return (Inl e) s' \<Longrightarrow>
   retry_guarded e \<Longrightarrow> retry \<le> 0"
  by (auto simp: Download_copy_def Let_def split: prod.splits option.splits if_splits
       dest!: retry_or_fail_Return Download_validate_Return)

lemma Download_transfer_Return:
  "Download_transfer env s uri target fname targetDir retry timeout pb ranges sz cl = Return (Inl e) s' \<Longrightarrow>
   retry_guarded e \<Longrightarrow> retry \<le> 0"
  by (auto simp: Download_transfer_def Let_def split: option.splits sum.splits if_splits
       dest!: retry_or_fail_Return dest: Download_copy_Return)

lemma Download_plan_Return:
  "Download_plan env s uri target fname entension targetDir retry timeout pb hresp = Return (Inl e) s' \<Longrightarrow>
   retry_guarded e \<Longrightarrow> retry \<le> 0"
  by (auto simp: Download_plan_def Let_def split: prod.splits option.splits if_splits
       dest!: retry_or_fail_Return dest: Download_transfer_Return)

lemma resolve_Inl: "resolve target = Inl e \<Longrightarrow> e = InvalidTarget"
  by (simp add: resolve_def Let_def split: if_splits)

lemma parse_msgs_Inl: "parse_msgs msgs = Inl e \<Longrightarrow> e = Panic"
  by (cases msgs; cases "hd msgs"; cases "tl msgs"; cases "hd (tl msgs)"; cases "tl (tl msgs)"; cases "hd (tl (tl msgs))")
     (auto simp: parse_msgs_def split: if_splits sum.splits)

lemma Download_body_Return:
  "Download_body env s uri target msgs = Return (Inl e) s' \<Longrightarrow> retry_guarded e \<Longrightarrow> budget msgs \<le> 0"
  by (auto simp: Download_body_def Let_def split: sum.splits prod.splits
       dest!: retry_or_fail_Return resolve_Inl parse_msgs_Inl parse_msgs_budget dest: Download_plan_Return)

lemma budget_recursive [simp]: "budget (IntArg r # rest) = r"
  by (simp add: budget_def)

lemma map_upt_shift:
  "f 0 # map (\<lambda>i. f (Suc i)) [0..<n] = map f [0..<Suc n]"
  by (simp add: map_upt_Suc del: upt_Suc)

lemma Download_attempts:
  "Download env s uri target msgs = (r, s') \<Longrightarrow>
   \<exists>evs. trace s' = trace s @ evs \<and> 1 \<le> attempts evs \<and> attempts evs \<le> nat (budget msgs) + 1 \<and>
     budgets evs = map (\<lambda>i. budget msgs - int i) [0..<attempts evs] \<and>
     ((case r of Inl e \<Rightarrow> retry_guarded e | Inr x \<Rightarrow> False) \<longrightarrow> attempts evs = nat (budget msgs) + 1)"
proof (induction env s uri target msgs arbitrary: r s' rule: Download.induct)
  case (1 env s uri target msgs)
  obtain evs1 where e1:
    "trace (state_of (Download_body env s uri target msgs)) = trace s @ EvCall target msgs # evs1"
    "filter is_call evs1 = []"
    using Download_body_trace by blast
  show ?case
  proof (cases "Download_body env s uri target msgs")
    case (Return r0 s0)
    with "1.prems" have eq: "r = r0" "s' = s0" by (simp_all add: Download.simps)
    have "(case r of Inl e \<Rightarrow> retry_guarded e | Inr x \<Rightarrow> False) \<longrightarrow> budget msgs \<le> 0"
      using Return eq Download_body_Return [of env s uri target msgs _ s0]
      by (auto split: sum.splits)
    with e1 Return eq show ?thesis
      by (auto simp: attempts_def budgets_def intro!: exI [of _ "EvCall target msgs # evs1"])
  next
    case (Recurse t' r' to' pb' s1)
    from Download_body_Recurse [OF Recurse] have b: "0 < budget msgs" "r' = budget msgs - 1" by simp_all
    from "1.prems" Recurse have rec: "Download env s1 uri t' [IntArg r', IntArg to', BoolArg pb'] = (r, s')"
      by (simp add: Download.simps)
    from "1.IH" [OF Recurse rec] obtain evs2 where e2:
      "trace s' = trace s1 @ evs2" "1 \<le> attempts evs2" "attempts evs2 \<le> nat r' + 1"
      "budgets evs2 = map (\<lambda>i. r' - int i) [0..<attempts evs2]"
      "(case r of Inl e \<Rightarrow> retry_guarded e | Inr x \<Rightarrow> False) \<longrightarrow> attempts evs2 = nat r' + 1"
      by auto
    let ?evs = "EvCall target msgs # evs1 @ evs2"
    have t: "trace s' = trace s @ ?evs" using e1 e2 Recurse by simp
    have a: "attempts ?evs = Suc (attempts evs2)" using e1 by (simp add: attempts_def)
    have bs: "budgets ?evs = budget msgs # budgets evs2" using e1 by (simp add: budgets_def)
    have "(\<lambda>i. r' - int i) = (\<lambda>i. budget msgs - int (Suc i))" using b by auto
    then have "budget msgs # map (\<lambda>i. r' - int i) [0..<attempts evs2]
        = map (\<lambda>i. budget msgs - int i) [0..<Suc (attempts evs2)]"
      using map_upt_shift [of "\<lambda>i. budget msgs - int i" "attempts evs2"]
      by (simp del: upt_Suc of_nat_Suc)
    with bs e2 a have bs': "budgets ?evs = map (\<lambda>i. budget msgs - int i) [0..<attempts ?evs]"
      by (simp del: upt_Suc)
    have n: "nat (budget msgs) = Suc (nat r')" using b by simp
    show ?thesis
      using t a bs' e2 n by (intro exI [of _ ?evs]) auto
  qed
qed

section \<open>Running the model\<close>

text \<open>
  The state in which an invocation sends its probe: the entry is recorded and the
  directory of the target has been looked after.
\<close>

definition at_probe :: "env \<Rightarrow> state \<Rightarrow> string \<Rightarrow> arg list \<Rightarrow> string \<Rightarrow> state" where
  "at_probe env s target msgs targetDir = ensure_dir env (log (EvCall target msgs) s) targetDir"

named_theorems run \<open>definitions unfolded to run the model on a concrete input\<close>

declare IsPathSeparator_def [run] Ext_def [run] Base_def [run] LastIndex_def [run] Clean_def [run]
  Dir_def [run] Sprint_int_def [run] digits.simps [run] Header_Get_def [run] Header_Set_def [run]
  now_def [run] log_def [run] IsDir_def [run] IsFile_def [run] Stat_def [run] MkdirAll_def [run]
  last_elem_start_def [run] MkdirAll_paths.simps [run]
  Remove_def [run] OpenFile_def [run] append_file_def [run] Copy_def [run] LimitReader_def [run]
  retry_or_fail_def [run] resolve_def [run] ensure_dir_def [run] parse_msgs_def [run]
  Download_validate_def [run] Download_copy_def [run] NewRequest_def [run]
  transfer_request_def [run] Download_transfer_def [run] supports_ranges_def [run] infer_def [run]
  existing_file_def [run] Download_plan_def [run] Download_body_def [run] Download.simps [run]
  budget_def [run] attempts_def [run] budgets_def [run] new_events_def [run] Let_def [run]

declare at_probe_def [run]

text \<open>
  Concrete surroundings for running the model: a MIME table that knows \<open>image/png\<close>, an
  environment whose server always gives the same two answers (to the probe and to the
  transfer request) and whose file system never fails, an unreachable server, and a state
  with no files.
\<close>

definition mime_png :: "string \<Rightarrow> string list option" where
  "mime_png ct = (if ct = ''image/png'' then Some [''.png''] else Some [])"

definition steady_env :: "string + hresponse \<Rightarrow> string + response \<Rightarrow> env" where
  "steady_env probe answer =
     \<lparr>MkdirAll_err = (\<lambda>t d. None), http_Get = (\<lambda>t u. probe), ExtensionsByType = mime_png,
      Remove_err = (\<lambda>t p. None), NewRequest_err = (\<lambda>u. None),
      client_Do = (\<lambda>t to r. answer), OpenFile_err = (\<lambda>t p. None),
      Write_err = (\<lambda>t p d. None)\<rparr>"

definition env_down :: env where
  "env_down = steady_env (Inl ''connection refused'') (Inl ''connection refused'')"

definition empty_state :: state where
  "empty_state = \<lparr>files = Map.empty, dirs = {}, trace = []\<rparr>"

declare mime_png_def [run] steady_env_def [run] env_down_def [run] empty_state_def [run]

section \<open>The path through one invocation\<close>

lemma Download_body_probe_failed:
  assumes "resolve target = Inr (fname, entension, targetDir)"
    and "parse_msgs msgs = Inr (retry, timeout, pb)"
    and "http_Get env (now (at_probe env s target msgs targetDir)) uri = Inl e"
  shows "Download_body env s uri target msgs =
     retry_or_fail retry target timeout pb (log (EvGet uri) (at_probe env s target msgs targetDir))
       (ProbeFailed e)"
  using assms by (simp add: Download_body_def at_probe_def Let_def)

lemma Download_body_probe_ok:
  assumes "resolve target = Inr (fname, entension, targetDir)"
    and "parse_msgs msgs = Inr (retry, timeout, pb)"
    and "http_Get env (now (at_probe env s target msgs targetDir)) uri = Inr hresp"
  shows "Download_body env s uri target msgs =
     Download_plan env (log (EvGet uri) (at_probe env s target msgs targetDir)) uri target fname
       entension targetDir retry timeout pb hresp"
  using assms by (simp add: Download_body_def at_probe_def Let_def)

lemma parse_msgs_recursive [simp]:
  "parse_msgs [IntArg r, IntArg t, BoolArg b] = Inr (r, t, b)"
  by (simp add: parse_msgs_def)

lemma Download_probe_down:
  "resolve target = Inr res \<Longrightarrow> parse_msgs msgs = Inr p \<Longrightarrow>
    Download env s uri target msgs = (r, s') \<Longrightarrow> \<forall>t. isl (http_Get env t uri) \<Longrightarrow>
    r = Inl (ProbeFailed (projl (http_Get env (now s' - 1) uri)))"
proof (induction env s uri target msgs arbitrary: p rule: Download.induct)
  case (1 env s uri target msgs)
  obtain fname entension targetDir where res: "resolve target = Inr (fname, entension, targetDir)"
    using "1.prems"(1) by (cases res) auto
  obtain retry timeout pb where p: "parse_msgs msgs = Inr (retry, timeout, pb)"
    using "1.prems"(2) by (cases p) auto
  let ?s1 = "at_probe env s target msgs targetDir"
  from "1.prems"(4) [rule_format, of "now ?s1"] obtain e where e: "http_Get env (now ?s1) uri = Inl e"
    by (cases "http_Get env (now ?s1) uri") auto
  note body = Download_body_probe_failed [OF res p e]
  show ?case
  proof (cases "0 < retry")
    case False
    with body "1.prems"(3) have "r = Inl (ProbeFailed e)" "s' = log (EvGet uri) ?s1"
      by (simp_all add: Download.simps retry_or_fail_def)
    with e show ?thesis by (simp add: now_def)
  next
    case True
    with body have rec: "Download_body env s uri target msgs
        = Recurse target (retry - 1) timeout pb (log (EvGet uri) ?s1)"
      by (simp add: retry_or_fail_def)
    with "1.prems"(3) have
      "Download env (log (EvGet uri) ?s1) uri target [IntArg (retry - 1), IntArg timeout, BoolArg pb]
         = (r, s')"
      by (simp add: Download.simps)
    from "1.IH" [OF rec "1.prems"(1) parse_msgs_recursive this "1.prems"(4)] show ?thesis .
  qed
qed

lemma LastIndex_no_separator:
  assumes "c \<notin> set s"
  shows "LastIndex s [c] = - 1"
proof -
  have "take (Suc 0) (drop i s) \<noteq> [c]" for i
  proof
    assume "take (Suc 0) (drop i s) = [c]"
    then have "c \<in> set (take (Suc 0) (drop i s))" by simp
    then have "c \<in> set s" by (meson in_set_takeD in_set_dropD)
    with assms show False by simp
  qed
  then have "filter (\<lambda>i. take (length [c]) (drop i s) = [c]) (rev [0..<Suc (length s)]) = []"
    by (simp add: filter_empty_conv del: upt_Suc)
  then show ?thesis by (simp add: LastIndex_def del: upt_Suc)
qed

lemma resolve_malformed:
  "Ext target = '''' \<Longrightarrow> CHR ''/'' \<notin> set target \<Longrightarrow> resolve target = Inl InvalidTarget"
  by (simp add: resolve_def LastIndex_no_separator)

section \<open>The retry budget\<close>

text \<open>
  What holds of the retry count. A call with a retry count \<open>N \<ge> 0\<close> makes at most
  \<open>N + 1\<close> attempts; the retry counts of the successive invocations are
  \<open>N, N - 1, N - 2, ...\<close>, each one less than the one before; when the probe fails at
  every time (and the target and \<^verbatim>\<open>msgs\<close> are well formed) exactly \<open>N + 1\<close> attempts are
  made and the error returned is the one of the last probe, the last event of the trace;
  and whenever the call returns an error that the source guards with a retry, exactly
  \<open>N + 1\<close> attempts were made. The size mismatch is not among these errors: see the
  last section.
\<close>

theorem attempts_within_retry_budget:
  assumes "0 \<le> budget msgs" and "Download env s uri target msgs = (r, s')"
  shows "int (attempts (new_events s s')) \<le> budget msgs + 1 \<and>
     budgets (new_events s s') = map (\<lambda>i. budget msgs - int i) [0..<attempts (new_events s s')] \<and>
     ((\<forall>t. isl (http_Get env t uri)) \<and> resolve target \<noteq> Inl InvalidTarget \<and>
        parse_msgs msgs \<noteq> Inl Panic \<longrightarrow>
          int (attempts (new_events s s')) = budget msgs + 1 \<and>
          r = Inl (ProbeFailed (projl (http_Get env (now s' - 1) uri)))) \<and>
     (\<forall>e. r = Inl e \<and> retry_guarded e \<longrightarrow> int (attempts (new_events s s')) = budget msgs + 1)"
proof -
  from Download_attempts [OF assms(2)] obtain evs where evs:
    "trace s' = trace s @ evs" "attempts evs \<le> nat (budget msgs) + 1"
    "budgets evs = map (\<lambda>i. budget msgs - int i) [0..<attempts evs]"
    "(case r of Inl e \<Rightarrow> retry_guarded e | Inr x \<Rightarrow> False) \<longrightarrow> attempts evs = nat (budget msgs) + 1"
    by blast
  from evs(1) have ne: "new_events s s' = evs" by (simp add: new_events_def)
  have a: "int (attempts evs) \<le> budget msgs + 1" using evs(2) assms(1) by linarith
  have c: "\<forall>e. r = Inl e \<and> retry_guarded e \<longrightarrow> int (attempts evs) = budget msgs + 1"
    using evs(4) assms(1) by auto
  have d: "int (attempts evs) = budget msgs + 1 \<and>
      r = Inl (ProbeFailed (projl (http_Get env (now s' - 1) uri)))"
    if down: "\<forall>t. isl (http_Get env t uri)" and res: "resolve target \<noteq> Inl InvalidTarget"
      and p: "parse_msgs msgs \<noteq> Inl Panic"
  proof -
    from res obtain x where x: "resolve target = Inr x"
      by (cases "resolve target") (auto dest: resolve_Inl)
    from p obtain y where y: "parse_msgs msgs = Inr y"
      by (cases "parse_msgs msgs") (auto dest: parse_msgs_Inl)
    from Download_probe_down [OF x y assms(2) down]
    have r: "r = Inl (ProbeFailed (projl (http_Get env (now s' - 1) uri)))" .
    with c show ?thesis by simp
  qed
  from a evs(3) c d ne show ?thesis by simp
qed

theorem attempts_within_retry_budget_witness:
  "0 \<le> budget [IntArg 2] \<and>
   (\<forall>t. isl (http_Get env_down t ''http://h/f'')) \<and>
   resolve ''/tmp/f.bin'' \<noteq> Inl InvalidTarget \<and>
   parse_msgs [IntArg 2] \<noteq> Inl Panic \<and>
   attempts (new_events empty_state (snd (Download env_down empty_state ''http://h/f'' ''/tmp/f.bin'' [IntArg 2]))) = 3 \<and>
   budgets (new_events empty_state (snd (Download env_down empty_state ''http://h/f'' ''/tmp/f.bin'' [IntArg 2]))) = [2, 1, 0] \<and>
   fst (Download env_down empty_state ''http://h/f'' ''/tmp/f.bin'' [IntArg 2])
     = Inl (ProbeFailed ''connection refused'')"
proof -
  let ?D = "Download env_down empty_state ''http://h/f'' ''/tmp/f.bin'' [IntArg 2]"
  have h1: "0 \<le> budget [IntArg 2]" by simp
  have h2: "?D = (fst ?D, snd ?D)" by simp
  have h3: "\<forall>t. isl (http_Get env_down t ''http://h/f'')" by (simp add: env_down_def steady_env_def)
  have h4: "resolve ''/tmp/f.bin'' \<noteq> Inl InvalidTarget" by (simp add: run)
  have h5: "parse_msgs [IntArg 2] \<noteq> Inl Panic" by (simp add: run)
  have p: "projl (http_Get env_down t ''http://h/f'') = ''connection refused''" for t
    by (simp add: env_down_def steady_env_def)
  have u: "[0..<3] = [0, 1, 2]" by (simp add: upt_rec)
  from attempts_within_retry_budget [OF h1 h2] h3 h4 h5
  have "int (attempts (new_events empty_state (snd ?D))) = 3"
    and "budgets (new_events empty_state (snd ?D))
          = map (\<lambda>i. 2 - int i) [0..<attempts (new_events empty_state (snd ?D))]"
    and "fst ?D = Inl (ProbeFailed ''connection refused'')"
    by (simp_all add: p)
  with h1 h3 h4 h5 u show ?thesis by simp
qed

section \<open>The malformed target\<close>

text \<open>
  Claim C8, as amended. A target with no extension and no path separator makes the first
  invocation return the malformed-target error at line 128, before the retry count is
  read: whatever \<^verbatim>\<open>msgs\<close> holds, the call returns at once, and the only event is its own
  entry.
\<close>

theorem malformed_target_returns_at_once:
  assumes "Ext target = ''''" and "CHR ''/'' \<notin> set target"
  shows "Download env s uri target msgs = (Inl InvalidTarget, log (EvCall target msgs) s)"
  using resolve_malformed [OF assms] by (simp add: Download.simps Download_body_def)

theorem malformed_target_returns_at_once_witness:
  "Ext ''downloads'' = '''' \<and> CHR ''/'' \<notin> set ''downloads'' \<and>
   Download env_down empty_state ''http://h/f'' ''downloads'' [IntArg 3]
     = (Inl InvalidTarget, log (EvCall ''downloads'' [IntArg 3]) empty_state)"
proof -
  have h1: "Ext ''downloads'' = ''''" by (simp add: Ext_def IsPathSeparator_def)
  have h2: "CHR ''/'' \<notin> set ''downloads''" by simp
  from malformed_target_returns_at_once [OF h1 h2] h1 h2 show ?thesis by simp
qed

text \<open>
  The claim as the spec states it (the malformed-target error is retried while retries
  remain) fails: with three retries left the target \<open>foo\<close> gives the error after one
  attempt and no request, where a failing probe on \<open>/tmp/foo\<close> is tried four times.
\<close>

theorem malformed_target_retried_counterexample:
  "fst (Download env_down empty_state ''http://h/f'' ''foo'' [IntArg 3]) = Inl InvalidTarget \<and>
   trace (snd (Download env_down empty_state ''http://h/f'' ''foo'' [IntArg 3]))
     = [EvCall ''foo'' [IntArg 3]] \<and>
   attempts (trace (snd (Download env_down empty_state ''http://h/f'' ''foo'' [IntArg 3]))) = 1 \<and>
   fst (Download env_down empty_state ''http://h/f'' ''/tmp/foo'' [IntArg 3])
     = Inl (ProbeFailed ''connection refused'') \<and>
   attempts (trace (snd (Download env_down empty_state ''http://h/f'' ''/tmp/foo'' [IntArg 3]))) = 4"
  by (simp add: run)

section \<open>The existing file and the decision to skip the transfer\<close>

text \<open>
  The kinds of events the claims speak of: a transfer request (\<^verbatim>\<open>client.Do\<close>), a write
  (the file is opened or created, or bytes are appended), a removal.
\<close>

fun is_transfer :: "event \<Rightarrow> bool" where
  "is_transfer (EvDo t r) = True"
| "is_transfer _ = False"

fun is_write :: "event \<Rightarrow> bool" where
  "is_write (EvOpenFile p) = True"
| "is_write (EvWrite p bs) = True"
| "is_write _ = False"

fun is_remove :: "event \<Rightarrow> bool" where
  "is_remove (EvRemove p) = True"
| "is_remove _ = False"

text \<open>
  More surroundings for running the model: a state with one file in its directory, a
  probe response with given headers and content length, a complete response with a
  given status and body, and a file system that refuses to remove files.
\<close>

definition state_with_file :: "string \<Rightarrow> byte list \<Rightarrow> state" where
  "state_with_file p bs = \<lparr>files = [p \<mapsto> bs], dirs = {Dir p}, trace = []\<rparr>"

definition probe_of :: "(string \<times> string) list \<Rightarrow> int \<Rightarrow> hresponse" where
  "probe_of hs n = \<lparr>Header = hs, ContentLength = n\<rparr>"

definition answer_of :: "int \<Rightarrow> byte list \<Rightarrow> response" where
  "answer_of code bs =
     \<lparr>StatusCode = code, Status = Sprint_int code, RespContentLength = int (length bs), Body = bs,
      BodyErr = None\<rparr>"

definition remove_denied :: "env \<Rightarrow> env" where
  "remove_denied env = env\<lparr>Remove_err := (\<lambda>t p. Some ''permission denied'')\<rparr>"

declare state_with_file_def [run] probe_of_def [run] answer_of_def [run] remove_denied_def [run]

lemma files_log [simp]: "files (log e s) = files s"
  by (simp add: log_def)

lemma files_ensure_dir [simp]: "files (ensure_dir env s d) = files s"
  by (simp add: ensure_dir_def MkdirAll_def split: option.splits)

lemma files_at_probe [simp]: "files (at_probe env s target msgs d) = files s"
  by (simp add: at_probe_def)

lemma trace_at_probe:
  "trace (at_probe env s target msgs d)
     = trace s @ EvCall target msgs # (if IsDir s d then [] else [EvMkdirAll d])"
  by (simp add: at_probe_def ensure_dir_def MkdirAll_def IsDir_def log_def split: option.splits)

lemma new_events_append [simp]: "trace s' = trace s @ evs \<Longrightarrow> new_events s s' = evs"
  by (simp add: new_events_def)

lemma new_events_probed:
  "new_events s (log (EvGet uri) (at_probe env s target msgs d))
     = EvCall target msgs # (if IsDir s d then [] else [EvMkdirAll d]) @ [EvGet uri]"
  by (rule new_events_append) (simp add: trace_at_probe)

lemma existing_file_ranges:
  "files s p = Some bs \<Longrightarrow> existing_file env s p True = (None, int (length bs), s)"
  by (simp add: existing_file_def IsFile_def Stat_def)

lemma existing_file_absent:
  "files s p = None \<Longrightarrow> existing_file env s p ranges = (None, 0, s)"
  by (simp add: existing_file_def IsFile_def)

lemma existing_file_removed:
  "files s p = Some bs \<Longrightarrow> Remove_err env (now s) p = None \<Longrightarrow>
   existing_file env s p False = (None, 0, log (EvRemove p) (s\<lparr>files := (files s)(p := None)\<rparr>))"
  by (simp add: existing_file_def IsFile_def Remove_def)

lemma existing_file_remove_failed:
  "files s p = Some bs \<Longrightarrow> Remove_err env (now s) p = Some e \<Longrightarrow>
   existing_file env s p False = (Some e, 0, log (EvRemove p) s)"
  by (simp add: existing_file_def IsFile_def Remove_def)

lemma Download_plan_skip:
  assumes "infer env hresp fname0 entension targetDir target = (fname, p)"
    and "existing_file env s p (supports_ranges hresp) = (None, ContentLength hresp, s1)"
  shows "Download_plan env s uri target fname0 entension targetDir retry timeout pb hresp
     = Return (Inr \<lparr>filename = fname, dir = targetDir, path = p\<rparr>) s1"
  using assms by (simp add: Download_plan_def)

lemma Download_plan_transfer:
  assumes "infer env hresp fname0 entension targetDir target = (fname, p)"
    and "existing_file env s p (supports_ranges hresp) = (None, sz, s1)"
    and "sz \<noteq> ContentLength hresp"
  shows "Download_plan env s uri target fname0 entension targetDir retry timeout pb hresp
     = Download_transfer env s1 uri p fname targetDir retry timeout pb (supports_ranges hresp) sz
         (ContentLength hresp)"
  using assms by (simp add: Download_plan_def)

lemma Download_plan_remove_failed:
  assumes "infer env hresp fname0 entension targetDir target = (fname, p)"
    and "existing_file env s p (supports_ranges hresp) = (Some e, sz, s1)"
  shows "Download_plan env s uri target fname0 entension targetDir retry timeout pb hresp
     = retry_or_fail retry p timeout pb s1 (RemoveFailed e)"
  using assms by (simp add: Download_plan_def)

lemma Download_Return:
  "Download_body env s uri target msgs = Return r s' \<Longrightarrow> Download env s uri target msgs = (r, s')"
  by (simp add: Download.simps)

lemma now_log [simp]: "now (log e s) = Suc (now s)"
  by (simp add: now_def)

text \<open>
  Claim C6. When the probe reports range support and the file at the resolved target
  already has the probed content length, the call returns the result (file name,
  directory, full path) from its first invocation, in the state in which the probe was
  sent: no file is changed, no transfer request is sent and nothing is opened or written.
\<close>

theorem complete_file_skips_transfer:
  assumes "resolve target = Inr (fname0, entension, targetDir)"
    and "parse_msgs msgs = Inr (retry, timeout, pb)"
    and "http_Get env (now (at_probe env s target msgs targetDir)) uri = Inr hresp"
    and "supports_ranges hresp"
    and "infer env hresp fname0 entension targetDir target = (fname, p)"
    and "files s p = Some bs"
    and "int (length bs) = ContentLength hresp"
  shows "Download env s uri target msgs
      = (Inr \<lparr>filename = fname, dir = targetDir, path = p\<rparr>,
         log (EvGet uri) (at_probe env s target msgs targetDir)) \<and>
     files (snd (Download env s uri target msgs)) = files s \<and>
     filter is_transfer (new_events s (snd (Download env s uri target msgs))) = [] \<and>
     filter is_write (new_events s (snd (Download env s uri target msgs))) = []"
proof -
  let ?s2 = "log (EvGet uri) (at_probe env s target msgs targetDir)"
  have "files ?s2 p = Some bs" using assms(6) by simp
  then have "existing_file env ?s2 p (supports_ranges hresp) = (None, ContentLength hresp, ?s2)"
    using assms(4,7) existing_file_ranges [of ?s2 p bs env] by simp
  from Download_plan_skip [OF assms(5) this]
  have "Download_body env s uri target msgs
      = Return (Inr \<lparr>filename = fname, dir = targetDir, path = p\<rparr>) ?s2"
    by (simp add: Download_body_probe_ok [OF assms(1,2,3)])
  then have "Download env s uri target msgs
      = (Inr \<lparr>filename = fname, dir = targetDir, path = p\<rparr>, ?s2)"
    by (rule Download_Return)
  then show ?thesis by (simp add: new_events_probed)
qed

theorem complete_file_skips_transfer_witness:
  "resolve ''/tmp/f.bin'' = Inr (''f'', ''.bin'', ''/tmp'') \<and>
   parse_msgs [] = Inr (0, 300, False) \<and>
   supports_ranges (probe_of [(''Accept-Ranges'', ''bytes'')] 3) \<and>
   files (state_with_file ''/tmp/f.bin'' [1, 2, 3]) ''/tmp/f.bin'' = Some [1, 2, 3] \<and>
   Download (steady_env (Inr (probe_of [(''Accept-Ranges'', ''bytes'')] 3)) (Inl ''unreachable''))
       (state_with_file ''/tmp/f.bin'' [1, 2, 3]) ''http://h/f'' ''/tmp/f.bin'' []
     = (Inr \<lparr>filename = ''f'', dir = ''/tmp'', path = ''/tmp/f.bin''\<rparr>,
        \<lparr>files = [''/tmp/f.bin'' \<mapsto> [1, 2, 3]], dirs = {''/tmp''},
         trace = [EvCall ''/tmp/f.bin'' [], EvGet ''http://h/f'']\<rparr>)"
proof -
  let ?h = "probe_of [(''Accept-Ranges'', ''bytes'')] 3"
  let ?env = "steady_env (Inr ?h) (Inl ''unreachable'')"
  let ?s = "state_with_file ''/tmp/f.bin'' [1, 2, 3]"
  have h1: "resolve ''/tmp/f.bin'' = Inr (''f'', ''.bin'', ''/tmp'')" by (simp add: run)
  have h2: "parse_msgs [] = Inr (0, 300, False)" by (simp add: run)
  have h3: "http_Get ?env (now (at_probe ?env ?s ''/tmp/f.bin'' [] ''/tmp'')) ''http://h/f'' = Inr ?h"
    by (simp add: steady_env_def)
  have h4: "supports_ranges ?h" by (simp add: run)
  have h5: "infer ?env ?h ''f'' ''.bin'' ''/tmp'' ''/tmp/f.bin'' = (''f'', ''/tmp/f.bin'')"
    by (simp add: run)
  have h6: "files ?s ''/tmp/f.bin'' = Some [1, 2, 3]" by (simp add: run)
  have h7: "int (length [1, 2, 3 :: byte]) = ContentLength ?h" by (simp add: run)
  from complete_file_skips_transfer [OF h1 h2 h3 h4 h5 h6 h7] h1 h2 h4 h6
  show ?thesis by (simp add: run)
qed

text \<open>
  Claim C10. When the probed content length is 0 and there is no file at the resolved
  target, or the file there is removed because the probe reports no range support, the
  call returns the result from its first invocation without a transfer request and
  without opening or writing a file: the path it returns names no file. The decision
  rests on \<open>size = contentLength\<close> alone, whether or not ranges are supported.
\<close>

theorem empty_content_skips_transfer:
  assumes "resolve target = Inr (fname0, entension, targetDir)"
    and "parse_msgs msgs = Inr (retry, timeout, pb)"
    and "http_Get env (now (at_probe env s target msgs targetDir)) uri = Inr hresp"
    and "infer env hresp fname0 entension targetDir target = (fname, p)"
    and "ContentLength hresp = 0"
    and "files s p = None \<or>
         (\<not> supports_ranges hresp \<and>
          Remove_err env (Suc (now (at_probe env s target msgs targetDir))) p = None)"
  shows "fst (Download env s uri target msgs) = Inr \<lparr>filename = fname, dir = targetDir, path = p\<rparr> \<and>
     files (snd (Download env s uri target msgs)) p = None \<and>
     filter is_transfer (new_events s (snd (Download env s uri target msgs))) = [] \<and>
     filter is_write (new_events s (snd (Download env s uri target msgs))) = []"
proof -
  let ?s2 = "log (EvGet uri) (at_probe env s target msgs targetDir)"
  let ?s3 = "log (EvRemove p) (?s2\<lparr>files := (files ?s2)(p := None)\<rparr>)"
  have body: "Download_body env s uri target msgs
      = Download_plan env ?s2 uri target fname0 entension targetDir retry timeout pb hresp"
    by (rule Download_body_probe_ok [OF assms(1,2,3)])
  show ?thesis
  proof (cases "files s p")
    case None
    then have "existing_file env ?s2 p (supports_ranges hresp) = (None, ContentLength hresp, ?s2)"
      using assms(5) by (simp add: existing_file_absent)
    from Download_plan_skip [OF assms(4) this] body
    have "Download env s uri target msgs
        = (Inr \<lparr>filename = fname, dir = targetDir, path = p\<rparr>, ?s2)"
      by (simp add: Download_Return)
    with None show ?thesis by (simp add: new_events_probed)
  next
    case (Some bs)
    with assms(6) have nr: "\<not> supports_ranges hresp" and ok: "Remove_err env (now ?s2) p = None"
      by simp_all
    have "files ?s2 p = Some bs" using Some by simp
    from existing_file_removed [OF this ok] nr assms(5)
    have "existing_file env ?s2 p (supports_ranges hresp) = (None, ContentLength hresp, ?s3)"
      by simp
    from Download_plan_skip [OF assms(4) this] body
    have D: "Download env s uri target msgs
        = (Inr \<lparr>filename = fname, dir = targetDir, path = p\<rparr>, ?s3)"
      by (simp add: Download_Return)
    have "trace ?s3 = trace s @ EvCall target msgs # (if IsDir s targetDir then [] else [EvMkdirAll targetDir])
        @ [EvGet uri, EvRemove p]"
      by (simp add: trace_at_probe)
    then have "new_events s ?s3 = EvCall target msgs # (if IsDir s targetDir then [] else [EvMkdirAll targetDir])
        @ [EvGet uri, EvRemove p]"
      by (rule new_events_append)
    with D show ?thesis by simp
  qed
qed

theorem empty_content_skips_transfer_witness:
  "resolve ''/tmp/f.bin'' = Inr (''f'', ''.bin'', ''/tmp'') \<and>
   parse_msgs [IntArg 2] = Inr (2, 300, False) \<and>
   ContentLength (probe_of [] 0) = 0 \<and>
   \<not> supports_ranges (probe_of [] 0) \<and>
   files (state_with_file ''/tmp/f.bin'' [7, 7]) ''/tmp/f.bin'' = Some [7, 7] \<and>
   fst (Download (steady_env (Inr (probe_of [] 0)) (Inl ''unreachable''))
         (state_with_file ''/tmp/f.bin'' [7, 7]) ''http://h/f'' ''/tmp/f.bin'' [IntArg 2])
     = Inr \<lparr>filename = ''f'', dir = ''/tmp'', path = ''/tmp/f.bin''\<rparr> \<and>
   files (snd (Download (steady_env (Inr (probe_of [] 0)) (Inl ''unreachable''))
         (state_with_file ''/tmp/f.bin'' [7, 7]) ''http://h/f'' ''/tmp/f.bin'' [IntArg 2]))
       ''/tmp/f.bin'' = None \<and>
   trace (snd (Download (steady_env (Inr (probe_of [] 0)) (Inl ''unreachable''))
         (state_with_file ''/tmp/f.bin'' [7, 7]) ''http://h/f'' ''/tmp/f.bin'' [IntArg 2]))
     = [EvCall ''/tmp/f.bin'' [IntArg 2], EvGet ''http://h/f'',
        EvRemove ''/tmp/f.bin'']"
proof -
  let ?h = "probe_of [] 0"
  let ?env = "steady_env (Inr ?h) (Inl ''unreachable'')"
  let ?s = "state_with_file ''/tmp/f.bin'' [7, 7]"
  have h1: "resolve ''/tmp/f.bin'' = Inr (''f'', ''.bin'', ''/tmp'')" by (simp add: run)
  have h2: "parse_msgs [IntArg 2] = Inr (2, 300, False)" by (simp add: run)
  have h3: "http_Get ?env (now (at_probe ?env ?s ''/tmp/f.bin'' [IntArg 2] ''/tmp'')) ''http://h/f'' = Inr ?h"
    by (simp add: steady_env_def)
  have h4: "infer ?env ?h ''f'' ''.bin'' ''/tmp'' ''/tmp/f.bin'' = (''f'', ''/tmp/f.bin'')"
    by (simp add: run)
  have h5: "ContentLength ?h = 0" by (simp add: run)
  have h6: "\<not> supports_ranges ?h" by (simp add: run)
  have h7: "Remove_err ?env (Suc (now (at_probe ?env ?s ''/tmp/f.bin'' [IntArg 2] ''/tmp''))) ''/tmp/f.bin'' = None"
    by (simp add: steady_env_def)
  have h8: "files ?s ''/tmp/f.bin'' = Some [7, 7]" by (simp add: run)
  have h67: "files ?s ''/tmp/f.bin'' = None \<or>
      (\<not> supports_ranges ?h \<and>
       Remove_err ?env (Suc (now (at_probe ?env ?s ''/tmp/f.bin'' [IntArg 2] ''/tmp''))) ''/tmp/f.bin'' = None)"
    using h6 h7 by simp
  have tr: "trace (snd (Download ?env ?s ''http://h/f'' ''/tmp/f.bin'' [IntArg 2]))
     = [EvCall ''/tmp/f.bin'' [IntArg 2], EvGet ''http://h/f'',
        EvRemove ''/tmp/f.bin'']"
    by (simp add: run)
  from empty_content_skips_transfer [OF h1 h2 h3 h4 h5 h67] h1 h2 h5 h6 h8 tr
  show ?thesis by simp
qed

section \<open>Success and the content length\<close>

lemma Stat_nonneg: "Stat s p = Some n \<Longrightarrow> 0 \<le> n"
  by (auto simp: Stat_def split: option.splits)

lemma existing_file_size_nonneg: "existing_file env s p ranges = (err, sz, s1) \<Longrightarrow> 0 \<le> sz"
  by (auto simp: existing_file_def split: if_splits option.splits prod.splits dest: Stat_nonneg)

lemma Download_validate_Inr:
  "Download_validate s p fname d sz cl = Return (Inr res) s' \<Longrightarrow>
   res = \<lparr>filename = fname, dir = d, path = p\<rparr> \<and> s' = s \<and>
   (case Stat s p of Some n \<Rightarrow> n | None \<Rightarrow> sz) = cl"
  by (simp add: Download_validate_def Let_def split: if_splits)

lemma Stat_append_file [simp]:
  "Stat (append_file p data s) p
     = Some (int (length (case files s p of None \<Rightarrow> [] | Some old \<Rightarrow> old)) + int (length data))"
  by (simp add: Stat_def append_file_def)

lemma Copy_Stat: "Copy env s p data rerr = (err, s') \<Longrightarrow> \<exists>n. Stat s' p = Some n"
  by (auto simp: Copy_def split: option.splits prod.splits)

lemma Download_copy_Inr:
  "Download_copy env s p fname d retry timeout pb sz cl resp = Return (Inr res) s' \<Longrightarrow>
   res = \<lparr>filename = fname, dir = d, path = p\<rparr> \<and> Stat s' p = Some cl"
  by (auto simp: Download_copy_def Let_def split: prod.splits option.splits if_splits
       dest!: retry_or_fail_Return Download_validate_Inr dest: Copy_Stat)

lemma Download_transfer_Inr:
  "Download_transfer env s uri p fname d retry timeout pb ranges sz cl = Return (Inr res) s' \<Longrightarrow>
   res = \<lparr>filename = fname, dir = d, path = p\<rparr> \<and> Stat s' p = Some cl"
  by (auto simp: Download_transfer_def Let_def split: option.splits sum.splits if_splits
       dest!: retry_or_fail_Return dest: Download_copy_Inr)

lemma Download_plan_Inr:
  assumes "Download_plan env s uri target fname0 entension d retry timeout pb hresp = Return (Inr res) s'"
    and "infer env hresp fname0 entension d target = (fname, p)"
  shows "res = \<lparr>filename = fname, dir = d, path = p\<rparr> \<and> 0 \<le> ContentLength hresp"
proof -
  obtain err sz s1 where ex: "existing_file env s p (supports_ranges hresp) = (err, sz, s1)"
    by (cases "existing_file env s p (supports_ranges hresp)")
  note nn = existing_file_size_nonneg [OF ex]
  show ?thesis
  proof (cases err)
    case (Some e)
    with assms ex show ?thesis
      by (auto simp: Download_plan_def dest!: retry_or_fail_Return)
  next
    case None
    show ?thesis
    proof (cases "sz = ContentLength hresp")
      case True
      with assms ex None nn show ?thesis by (auto simp: Download_plan_def)
    next
      case False
      with assms ex None have
        "Download_transfer env s1 uri p fname d retry timeout pb (supports_ranges hresp) sz
           (ContentLength hresp) = Return (Inr res) s'"
        by (simp add: Download_plan_def)
      from Download_transfer_Inr [OF this] show ?thesis by (auto dest: Stat_nonneg)
    qed
  qed
qed

lemma Download_body_Inr:
  assumes "Download_body env s uri target msgs = Return (Inr res) s'"
  shows "\<exists>t hresp. http_Get env t uri = Inr hresp \<and> 0 \<le> ContentLength hresp"
proof -
  from assms obtain fname0 entension d where res: "resolve target = Inr (fname0, entension, d)"
    by (cases "resolve target") (auto simp: Download_body_def)
  from assms res obtain retry timeout pb where p: "parse_msgs msgs = Inr (retry, timeout, pb)"
    by (cases "parse_msgs msgs") (auto simp: Download_body_def Let_def)
  let ?t = "now (at_probe env s target msgs d)"
  show ?thesis
  proof (cases "http_Get env ?t uri")
    case (Inl e)
    from Download_body_probe_failed [OF res p Inl] assms
    have "retry_or_fail retry target timeout pb (log (EvGet uri) (at_probe env s target msgs d))
        (ProbeFailed e) = Return (Inr res) s'"
      by simp
    then show ?thesis by (auto dest!: retry_or_fail_Return)
  next
    case (Inr hresp)
    obtain fname q where inf: "infer env hresp fname0 entension d target = (fname, q)"
      by (cases "infer env hresp fname0 entension d target")
    from Download_body_probe_ok [OF res p Inr] assms
    have "Download_plan env (log (EvGet uri) (at_probe env s target msgs d)) uri target fname0
        entension d retry timeout pb hresp = Return (Inr res) s'"
      by simp
    from Download_plan_Inr [OF this inf] Inr show ?thesis by blast
  qed
qed

lemma Download_Inr:
  "Download env s uri target msgs = (Inr res, s') \<Longrightarrow>
   \<exists>t hresp. http_Get env t uri = Inr hresp \<and> 0 \<le> ContentLength hresp"
proof (induction env s uri target msgs rule: Download.induct)
  case (1 env s uri target msgs)
  show ?case
  proof (cases "Download_body env s uri target msgs")
    case (Return r s0)
    with "1.prems" have "Download_body env s uri target msgs = Return (Inr res) s'"
      by (simp add: Download.simps)
    then show ?thesis by (rule Download_body_Inr)
  next
    case (Recurse t' r' to' pb' s1)
    with "1.prems" have "Download env s1 uri t' [IntArg r', IntArg to', BoolArg pb'] = (Inr res, s')"
      by (simp add: Download.simps)
    from "1.IH" [OF Recurse this] show ?thesis .
  qed
qed

text \<open>
  Claim C9. When every probe that answers declares no content length (\<open>-1\<close>), the call
  never returns a result, whatever the retries: no file size equals \<open>-1\<close>, so the
  check at line 202 never skips the transfer, and the comparison at line 288 gives the
  size-mismatch error for every file, also when the whole body has been written.
\<close>

theorem unknown_length_never_succeeds:
  assumes "\<forall>t h. http_Get env t uri = Inr h \<longrightarrow> ContentLength h = - 1"
  shows "isl (fst (Download env s uri target msgs)) \<and>
     Stat s2 p \<noteq> Some (- 1) \<and>
     (0 \<le> sz \<longrightarrow> Download_validate s2 p fname d sz (- 1) = Return (Inl SizeMismatch) s2)"
proof -
  have a: "isl (fst (Download env s uri target msgs))"
  proof (cases "Download env s uri target msgs")
    case (Pair r s')
    show ?thesis
    proof (cases r)
      case (Inl e)
      with Pair show ?thesis by simp
    next
      case (Inr res)
      with Pair Download_Inr [of env s uri target msgs res s'] assms show ?thesis by fastforce
    qed
  qed
  have b: "Stat s2 p \<noteq> Some (- 1)" using Stat_nonneg [of s2 p "- 1"] by auto
  have c: "Download_validate s2 p fname d sz (- 1) = Return (Inl SizeMismatch) s2" if "0 \<le> sz"
    using that Stat_nonneg [of s2 p] by (auto simp: Download_validate_def Let_def split: option.splits)
  from a b c show ?thesis by simp
qed

theorem unknown_length_never_succeeds_witness:
  "(\<forall>t. http_Get (steady_env (Inr (probe_of [] (- 1))) (Inr (answer_of 200 [1, 2, 3]))) t ''http://h/f''
        = Inr (probe_of [] (- 1))) \<and>
   ContentLength (probe_of [] (- 1)) = - 1 \<and>
   isl (fst (Download (steady_env (Inr (probe_of [] (- 1))) (Inr (answer_of 200 [1, 2, 3])))
          empty_state ''http://h/f'' ''/tmp/f.bin'' [IntArg 2])) \<and>
   Download (steady_env (Inr (probe_of [] (- 1))) (Inr (answer_of 200 [1, 2, 3])))
       empty_state ''http://h/f'' ''/tmp/f.bin'' [IntArg 2]
     = (Inl SizeMismatch,
        \<lparr>files = [''/tmp/f.bin'' \<mapsto> [1, 2, 3]], dirs = {''/tmp''},
         trace = [EvCall ''/tmp/f.bin'' [IntArg 2], EvMkdirAll ''/tmp'', EvGet ''http://h/f'',
           EvDo 300 (transfer_request ''http://h/f'' False 0), EvOpenFile ''/tmp/f.bin'',
           EvWrite ''/tmp/f.bin'' [1, 2, 3]]\<rparr>)"
proof -
  let ?env = "steady_env (Inr (probe_of [] (- 1))) (Inr (answer_of 200 [1, 2, 3]))"
  have h0: "\<forall>t. http_Get ?env t ''http://h/f'' = Inr (probe_of [] (- 1))"
    by (simp add: steady_env_def)
  have h0': "ContentLength (probe_of [] (- 1)) = - 1" by (simp add: probe_of_def)
  have h1: "\<forall>t h. http_Get ?env t ''http://h/f'' = Inr h \<longrightarrow> ContentLength h = - 1"
    using h0 h0' by auto
  have run: "Download ?env empty_state ''http://h/f'' ''/tmp/f.bin'' [IntArg 2]
     = (Inl SizeMismatch,
        \<lparr>files = [''/tmp/f.bin'' \<mapsto> [1, 2, 3]], dirs = {''/tmp''},
         trace = [EvCall ''/tmp/f.bin'' [IntArg 2], EvMkdirAll ''/tmp'', EvGet ''http://h/f'',
           EvDo 300 (transfer_request ''http://h/f'' False 0), EvOpenFile ''/tmp/f.bin'',
           EvWrite ''/tmp/f.bin'' [1, 2, 3]]\<rparr>)"
    by (simp add: run)
  from unknown_length_never_succeeds [OF h1, of empty_state "''/tmp/f.bin''" "[IntArg 2]"] h0 h0' run
  show ?thesis by simp
qed

section \<open>The transfer with range support\<close>

lemma Download_copy_events:
  "\<exists>rest. trace (state_of (Download_copy env s p fname d retry timeout pb sz cl resp))
      = trace s @ rest \<and> list_all is_write rest"
  by (auto simp: Download_copy_def OpenFile_def Copy_def append_file_def Let_def
       split: prod.splits option.splits if_splits)

lemma Download_transfer_events:
  "\<exists>rest. trace (state_of (Download_transfer env s uri p fname d retry timeout pb ranges sz cl))
      = trace s @ (case NewRequest_err env uri of
                     Some e \<Rightarrow> []
                   | None \<Rightarrow> EvDo timeout (transfer_request uri ranges sz) # rest) \<and>
     list_all is_write rest"
proof (cases "NewRequest_err env uri")
  case (Some e)
  then show ?thesis by (auto simp: Download_transfer_def intro: exI [of _ "[]"])
next
  case None
  let ?req = "transfer_request uri ranges sz"
  show ?thesis
  proof (cases "client_Do env (now s) timeout ?req")
    case (Inl e)
    with None show ?thesis by (auto simp: Download_transfer_def Let_def intro: exI [of _ "[]"])
  next
    case (Inr resp)
    obtain rest where
      "trace (state_of (Download_copy env (log (EvDo timeout ?req) s) p fname d retry timeout pb sz cl
          resp)) = trace (log (EvDo timeout ?req) s) @ rest" "list_all is_write rest"
      using Download_copy_events by blast
    with None Inr show ?thesis
      by (cases "StatusCode resp < 200 \<or> 300 \<le> StatusCode resp")
         (auto simp: Download_transfer_def Let_def intro: exI [of _ "[]"])
  qed
qed

lemma writes_only:
  "list_all is_write rest \<Longrightarrow> filter is_transfer rest = [] \<and> filter is_remove rest = []"
  by (induction rest) (auto elim: is_write.elims)

lemma Download_copy_files:
  "files s p = Some old \<Longrightarrow>
   \<exists>data. files (state_of (Download_copy env s p fname d retry timeout pb sz cl resp)) p
      = Some (old @ data)"
  by (auto simp: Download_copy_def OpenFile_def Copy_def append_file_def Let_def
       split: prod.splits option.splits if_splits)

lemma Download_transfer_files:
  "files s p = Some old \<Longrightarrow>
   \<exists>data. files (state_of (Download_transfer env s uri p fname d retry timeout pb ranges sz cl)) p
      = Some (old @ data)"
proof -
  assume old: "files s p = Some old"
  have c: "\<exists>data. files (state_of (Download_copy env (log e s) p fname d retry timeout pb sz cl resp)) p
      = Some (old @ data)" for e resp
    using old by (intro Download_copy_files) simp
  from old c show ?thesis
    by (auto simp: Download_transfer_def Let_def split: option.splits sum.splits)
qed

lemma new_events_trans:
  "trace s1 = trace s @ a \<Longrightarrow> trace s2 = trace s1 @ b \<Longrightarrow> new_events s s2 = a @ b"
  by (simp add: new_events_def)

lemma Range_header:
  "map_of (ReqHeader (transfer_request uri True sz)) ''Range'' = Some (''bytes='' @ Sprint_int sz @ ''-'')"
  by (simp add: transfer_request_def Header_Set_def NewRequest_def Let_def)

lemma Download_body_ranged:
  assumes "resolve target = Inr (fname0, entension, d)"
    and "parse_msgs msgs = Inr (retry, timeout, pb)"
    and "http_Get env (now (at_probe env s target msgs d)) uri = Inr hresp"
    and "supports_ranges hresp"
    and "infer env hresp fname0 entension d target = (fname, p)"
    and "files s p = Some bs"
    and "int (length bs) \<noteq> ContentLength hresp"
  shows "Download_body env s uri target msgs
     = Download_transfer env (log (EvGet uri) (at_probe env s target msgs d)) uri p fname d retry
         timeout pb True (int (length bs)) (ContentLength hresp)"
proof -
  let ?s2 = "log (EvGet uri) (at_probe env s target msgs d)"
  have "files ?s2 p = Some bs" using assms(6) by simp
  then have "existing_file env ?s2 p (supports_ranges hresp) = (None, int (length bs), ?s2)"
    using assms(4) existing_file_ranges [of ?s2 p bs env] by simp
  from Download_plan_transfer [OF assms(5) this assms(7)] assms(4) show ?thesis
    by (simp add: Download_body_probe_ok [OF assms(1,2,3)])
qed

lemma ranged_transfer:
  assumes "resolve target = Inr (fname0, entension, d)"
    and "parse_msgs msgs = Inr (retry, timeout, pb)"
    and "http_Get env (now (at_probe env s target msgs d)) uri = Inr hresp"
    and "supports_ranges hresp"
    and "infer env hresp fname0 entension d target = (fname, p)"
    and "files s p = Some bs"
    and "int (length bs) \<noteq> ContentLength hresp"
  shows "filter is_transfer (new_events s (state_of (Download_body env s uri target msgs)))
       = (case NewRequest_err env uri of
            Some e \<Rightarrow> []
          | None \<Rightarrow> [EvDo timeout (transfer_request uri True (int (length bs)))])"
    and "filter is_remove (new_events s (state_of (Download_body env s uri target msgs))) = []"
    and "\<exists>data. files (state_of (Download_body env s uri target msgs)) p = Some (bs @ data)"
    and "Download_body env s uri target msgs = Return (Inr res) s' \<Longrightarrow>
         res = \<lparr>filename = fname, dir = d, path = p\<rparr> \<and> Stat s' p = Some (ContentLength hresp)"
proof -
  let ?s2 = "log (EvGet uri) (at_probe env s target msgs d)"
  let ?out = "Download_transfer env ?s2 uri p fname d retry timeout pb True (int (length bs))
    (ContentLength hresp)"
  note body = Download_body_ranged [OF assms]
  obtain rest where rest: "trace (state_of ?out)
      = trace ?s2 @ (case NewRequest_err env uri of
                     Some e \<Rightarrow> []
                   | None \<Rightarrow> EvDo timeout (transfer_request uri True (int (length bs))) # rest)"
      "list_all is_write rest"
    using Download_transfer_events by blast
  have pre: "trace ?s2 = trace s @ EvCall target msgs # (if IsDir s d then [] else [EvMkdirAll d]) @ [EvGet uri]"
    by (simp add: trace_at_probe)
  note ne = new_events_trans [OF pre rest(1)]
  from ne writes_only [OF rest(2)] body
  show "filter is_transfer (new_events s (state_of (Download_body env s uri target msgs)))
       = (case NewRequest_err env uri of
            Some e \<Rightarrow> []
          | None \<Rightarrow> [EvDo timeout (transfer_request uri True (int (length bs)))])"
    by (simp split: option.splits)
  from ne writes_only [OF rest(2)] body
  show "filter is_remove (new_events s (state_of (Download_body env s uri target msgs))) = []"
    by (simp split: option.splits)
  have "files ?s2 p = Some bs" using assms(6) by simp
  from Download_transfer_files [OF this] body
  show "\<exists>data. files (state_of (Download_body env s uri target msgs)) p = Some (bs @ data)"
    by simp
  show "res = \<lparr>filename = fname, dir = d, path = p\<rparr> \<and> Stat s' p = Some (ContentLength hresp)"
    if "Download_body env s uri target msgs = Return (Inr res) s'"
    using that body Download_transfer_Inr [of env ?s2 uri p fname d retry timeout pb True
      "int (length bs)" "ContentLength hresp" res s'] by simp
qed

text \<open>
  Claim C4. With range support and a file at the resolved target whose size \<open>S\<close> is below
  the probed content length \<open>L\<close>, the only transfer request of the invocation (sent
  unless \<^verbatim>\<open>http.NewRequest\<close> fails) carries the header \<open>Range: bytes=S-\<close>; the file is
  not removed and keeps its bytes, new ones are appended; and when the invocation returns
  the result, the size of the file is \<open>L\<close>.
\<close>

theorem partial_file_resumed_from_its_size:
  assumes "resolve target = Inr (fname0, entension, d)"
    and "parse_msgs msgs = Inr (retry, timeout, pb)"
    and "http_Get env (now (at_probe env s target msgs d)) uri = Inr hresp"
    and "supports_ranges hresp"
    and "infer env hresp fname0 entension d target = (fname, p)"
    and "files s p = Some bs"
    and "int (length bs) < ContentLength hresp"
  shows "filter is_transfer (new_events s (state_of (Download_body env s uri target msgs)))
       = (case NewRequest_err env uri of
            Some e \<Rightarrow> []
          | None \<Rightarrow> [EvDo timeout (transfer_request uri True (int (length bs)))]) \<and>
     map_of (ReqHeader (transfer_request uri True (int (length bs)))) ''Range''
       = Some (''bytes='' @ Sprint_int (int (length bs)) @ ''-'') \<and>
     filter is_remove (new_events s (state_of (Download_body env s uri target msgs))) = [] \<and>
     (\<exists>data. files (state_of (Download_body env s uri target msgs)) p = Some (bs @ data)) \<and>
     (\<forall>res s'. Download_body env s uri target msgs = Return (Inr res) s' \<longrightarrow>
        res = \<lparr>filename = fname, dir = d, path = p\<rparr> \<and> Stat s' p = Some (ContentLength hresp))"
proof -
  from assms(7) have ne: "int (length bs) \<noteq> ContentLength hresp" by simp
  note r = ranged_transfer [OF assms(1-6) ne]
  from r(1) r(2) r(3) r(4) Range_header show ?thesis by blast
qed

theorem partial_file_resumed_from_its_size_witness:
  "resolve ''/tmp/f.bin'' = Inr (''f'', ''.bin'', ''/tmp'') \<and>
   parse_msgs [] = Inr (0, 300, False) \<and>
   supports_ranges (probe_of [(''Accept-Ranges'', ''bytes'')] 5) \<and>
   files (state_with_file ''/tmp/f.bin'' [1, 2]) ''/tmp/f.bin'' = Some [1, 2] \<and>
   int (length [1, 2 :: byte]) < ContentLength (probe_of [(''Accept-Ranges'', ''bytes'')] 5) \<and>
   Download_body
       (steady_env (Inr (probe_of [(''Accept-Ranges'', ''bytes'')] 5)) (Inr (answer_of 206 [3, 4, 5])))
       (state_with_file ''/tmp/f.bin'' [1, 2]) ''http://h/f'' ''/tmp/f.bin'' []
     = Return (Inr \<lparr>filename = ''f'', dir = ''/tmp'', path = ''/tmp/f.bin''\<rparr>)
        \<lparr>files = [''/tmp/f.bin'' \<mapsto> [1, 2, 3, 4, 5]], dirs = {''/tmp''},
         trace = [EvCall ''/tmp/f.bin'' [], EvGet ''http://h/f'',
           EvDo 300 \<lparr>Method = ''GET'', URL = ''http://h/f'',
             ReqHeader = [(''Range'', ''bytes=2-''), (''Accept-Ranges'', ''bytes''),
               (''User-Agent'', user_agent)]\<rparr>,
           EvOpenFile ''/tmp/f.bin'', EvWrite ''/tmp/f.bin'' [3, 4, 5]]\<rparr> \<and>
   Stat (state_of (Download_body
       (steady_env (Inr (probe_of [(''Accept-Ranges'', ''bytes'')] 5)) (Inr (answer_of 206 [3, 4, 5])))
       (state_with_file ''/tmp/f.bin'' [1, 2]) ''http://h/f'' ''/tmp/f.bin'' [])) ''/tmp/f.bin''
     = Some 5"
proof -
  let ?h = "probe_of [(''Accept-Ranges'', ''bytes'')] 5"
  let ?env = "steady_env (Inr ?h) (Inr (answer_of 206 [3, 4, 5]))"
  let ?s = "state_with_file ''/tmp/f.bin'' [1, 2]"
  let ?s' = "\<lparr>files = [''/tmp/f.bin'' \<mapsto> [1, 2, 3, 4, 5 :: byte]], dirs = {''/tmp''},
         trace = [EvCall ''/tmp/f.bin'' [], EvGet ''http://h/f'',
           EvDo 300 \<lparr>Method = ''GET'', URL = ''http://h/f'',
             ReqHeader = [(''Range'', ''bytes=2-''), (''Accept-Ranges'', ''bytes''),
               (''User-Agent'', user_agent)]\<rparr>,
           EvOpenFile ''/tmp/f.bin'', EvWrite ''/tmp/f.bin'' [3, 4, 5]]\<rparr>"
  have h1: "resolve ''/tmp/f.bin'' = Inr (''f'', ''.bin'', ''/tmp'')" by (simp add: run)
  have h2: "parse_msgs [] = Inr (0, 300, False)" by (simp add: run)
  have h3: "http_Get ?env (now (at_probe ?env ?s ''/tmp/f.bin'' [] ''/tmp'')) ''http://h/f'' = Inr ?h"
    by (simp add: steady_env_def)
  have h4: "supports_ranges ?h" by (simp add: run)
  have h5: "infer ?env ?h ''f'' ''.bin'' ''/tmp'' ''/tmp/f.bin'' = (''f'', ''/tmp/f.bin'')"
    by (simp add: run)
  have h6: "files ?s ''/tmp/f.bin'' = Some [1, 2]" by (simp add: run)
  have h7: "int (length [1, 2 :: byte]) < ContentLength ?h" by (simp add: run)
  have body: "Download_body ?env ?s ''http://h/f'' ''/tmp/f.bin'' []
      = Return (Inr \<lparr>filename = ''f'', dir = ''/tmp'', path = ''/tmp/f.bin''\<rparr>) ?s'"
    by (simp add: run)
  from partial_file_resumed_from_its_size [OF h1 h2 h3 h4 h5 h6 h7] body
  have "Stat ?s' ''/tmp/f.bin'' = Some (ContentLength ?h)" by simp
  with h1 h2 h4 h6 h7 body show ?thesis by (simp add: probe_of_def)
qed

text \<open>
  Claim C2, as amended. With range support and a file at the resolved target whose size
  \<open>S\<close> is above the probed content length \<open>L\<close>, the invocation does not remove the
  file: as for a smaller file, its only transfer request carries \<open>Range: bytes=S-\<close>, what
  comes back is appended to the bytes already there, and the invocation cannot return the
  result, since the file can only grow.
\<close>

theorem oversized_file_not_removed:
  assumes "resolve target = Inr (fname0, entension, d)"
    and "parse_msgs msgs = Inr (retry, timeout, pb)"
    and "http_Get env (now (at_probe env s target msgs d)) uri = Inr hresp"
    and "supports_ranges hresp"
    and "infer env hresp fname0 entension d target = (fname, p)"
    and "files s p = Some bs"
    and "ContentLength hresp < int (length bs)"
  shows "filter is_remove (new_events s (state_of (Download_body env s uri target msgs))) = [] \<and>
     filter is_transfer (new_events s (state_of (Download_body env s uri target msgs)))
       = (case NewRequest_err env uri of
            Some e \<Rightarrow> []
          | None \<Rightarrow> [EvDo timeout (transfer_request uri True (int (length bs)))]) \<and>
     map_of (ReqHeader (transfer_request uri True (int (length bs)))) ''Range''
       = Some (''bytes='' @ Sprint_int (int (length bs)) @ ''-'') \<and>
     (\<exists>data. files (state_of (Download_body env s uri target msgs)) p = Some (bs @ data)) \<and>
     (\<forall>res s'. Download_body env s uri target msgs \<noteq> Return (Inr res) s')"
proof -
  from assms(7) have ne: "int (length bs) \<noteq> ContentLength hresp" by simp
  note r = ranged_transfer [OF assms(1-6) ne]
  have "Download_body env s uri target msgs \<noteq> Return (Inr res) s'" for res s'
  proof
    assume ret: "Download_body env s uri target msgs = Return (Inr res) s'"
    from r(4) [OF ret] have st: "Stat s' p = Some (ContentLength hresp)" by simp
    from r(3) ret obtain data where "files s' p = Some (bs @ data)" by auto
    then have "Stat s' p = Some (int (length bs) + int (length data))" by (simp add: Stat_def)
    with st assms(7) show False by simp
  qed
  with r(1) r(2) r(3) Range_header show ?thesis by blast
qed

theorem oversized_file_not_removed_witness:
  "resolve ''/tmp/f.bin'' = Inr (''f'', ''.bin'', ''/tmp'') \<and>
   parse_msgs [] = Inr (0, 300, False) \<and>
   supports_ranges (probe_of [(''Accept-Ranges'', ''bytes'')] 3) \<and>
   files (state_with_file ''/tmp/f.bin'' [1, 2, 3, 4, 5]) ''/tmp/f.bin'' = Some [1, 2, 3, 4, 5] \<and>
   ContentLength (probe_of [(''Accept-Ranges'', ''bytes'')] 3) < int (length [1, 2, 3, 4, 5 :: byte]) \<and>
   filter is_remove (new_events (state_with_file ''/tmp/f.bin'' [1, 2, 3, 4, 5])
     (state_of (Download_body
       (steady_env (Inr (probe_of [(''Accept-Ranges'', ''bytes'')] 3)) (Inr (answer_of 206 [9])))
       (state_with_file ''/tmp/f.bin'' [1, 2, 3, 4, 5]) ''http://h/f'' ''/tmp/f.bin'' []))) = [] \<and>
   Download_body
       (steady_env (Inr (probe_of [(''Accept-Ranges'', ''bytes'')] 3)) (Inr (answer_of 206 [9])))
       (state_with_file ''/tmp/f.bin'' [1, 2, 3, 4, 5]) ''http://h/f'' ''/tmp/f.bin'' []
     = Return (Inl SizeMismatch)
        \<lparr>files = [''/tmp/f.bin'' \<mapsto> [1, 2, 3, 4, 5, 9]], dirs = {''/tmp''},
         trace = [EvCall ''/tmp/f.bin'' [], EvGet ''http://h/f'',
           EvDo 300 (transfer_request ''http://h/f'' True 5),
           EvOpenFile ''/tmp/f.bin'', EvWrite ''/tmp/f.bin'' [9]]\<rparr>"
proof -
  let ?h = "probe_of [(''Accept-Ranges'', ''bytes'')] 3"
  let ?env = "steady_env (Inr ?h) (Inr (answer_of 206 [9]))"
  let ?s = "state_with_file ''/tmp/f.bin'' [1, 2, 3, 4, 5]"
  have h1: "resolve ''/tmp/f.bin'' = Inr (''f'', ''.bin'', ''/tmp'')" by (simp add: run)
  have h2: "parse_msgs [] = Inr (0, 300, False)" by (simp add: run)
  have h3: "http_Get ?env (now (at_probe ?env ?s ''/tmp/f.bin'' [] ''/tmp'')) ''http://h/f'' = Inr ?h"
    by (simp add: steady_env_def)
  have h4: "supports_ranges ?h" by (simp add: run)
  have h5: "infer ?env ?h ''f'' ''.bin'' ''/tmp'' ''/tmp/f.bin'' = (''f'', ''/tmp/f.bin'')"
    by (simp add: run)
  have h6: "files ?s ''/tmp/f.bin'' = Some [1, 2, 3, 4, 5]" by (simp add: run)
  have h7: "ContentLength ?h < int (length [1, 2, 3, 4, 5 :: byte])" by (simp add: run)
  have body: "Download_body ?env ?s ''http://h/f'' ''/tmp/f.bin'' []
     = Return (Inl SizeMismatch)
        \<lparr>files = [''/tmp/f.bin'' \<mapsto> [1, 2, 3, 4, 5, 9]], dirs = {''/tmp''},
         trace = [EvCall ''/tmp/f.bin'' [], EvGet ''http://h/f'',
           EvDo 300 (transfer_request ''http://h/f'' True 5),
           EvOpenFile ''/tmp/f.bin'', EvWrite ''/tmp/f.bin'' [9]]\<rparr>"
    by (simp add: run)
  from oversized_file_not_removed [OF h1 h2 h3 h4 h5 h6 h7]
  have "filter is_remove (new_events ?s (state_of (Download_body ?env ?s ''http://h/f'' ''/tmp/f.bin'' []))) = []"
    by blast
  with h1 h2 h4 h6 h7 body show ?thesis by simp
qed

text \<open>
  The claim as the spec states it (the file is deleted and the transfer restarts from
  offset 0) fails: a file of 5 bytes against a content length of 3 is left in place, and
  the request asks for the range from offset 5.
\<close>

theorem oversized_file_removed_counterexample:
  "files (state_with_file ''/tmp/f.bin'' [1, 2, 3, 4, 5]) ''/tmp/f.bin'' = Some [1, 2, 3, 4, 5] \<and>
   ContentLength (probe_of [(''Accept-Ranges'', ''bytes'')] 3) = 3 \<and>
   supports_ranges (probe_of [(''Accept-Ranges'', ''bytes'')] 3) \<and>
   Download
       (steady_env (Inr (probe_of [(''Accept-Ranges'', ''bytes'')] 3)) (Inr (answer_of 416 [])))
       (state_with_file ''/tmp/f.bin'' [1, 2, 3, 4, 5]) ''http://h/f'' ''/tmp/f.bin'' []
     = (Inl (BadStatus 416 ''416''),
        \<lparr>files = [''/tmp/f.bin'' \<mapsto> [1, 2, 3, 4, 5]], dirs = {''/tmp''},
         trace = [EvCall ''/tmp/f.bin'' [], EvGet ''http://h/f'',
           EvDo 300 \<lparr>Method = ''GET'', URL = ''http://h/f'',
             ReqHeader = [(''Range'', ''bytes=5-''), (''Accept-Ranges'', ''bytes''),
               (''User-Agent'', user_agent)]\<rparr>]\<rparr>)"
  by (simp add: run)

section \<open>The transfer without range support\<close>

lemma Download_copy_fresh:
  "files s p = None \<Longrightarrow>
   files (state_of (Download_copy env s p fname d retry timeout pb sz cl resp)) p = None \<or>
   (\<exists>data. files (state_of (Download_copy env s p fname d retry timeout pb sz cl resp)) p = Some data \<and>
      EvWrite p data \<in> set (new_events s (state_of (Download_copy env s p fname d retry timeout pb sz cl resp))))"
  by (auto simp: Download_copy_def OpenFile_def Copy_def append_file_def new_events_def Let_def
       split: prod.splits option.splits if_splits)

lemma new_events_log: "new_events (log e s) s' = drop 1 (new_events s s')"
  by (simp add: new_events_def)

lemma Download_transfer_fresh:
  assumes "files s p = None"
  shows "files (state_of (Download_transfer env s uri p fname d retry timeout pb ranges sz cl)) p = None \<or>
   (\<exists>data. files (state_of (Download_transfer env s uri p fname d retry timeout pb ranges sz cl)) p
        = Some data \<and>
      EvWrite p data \<in> set (new_events s (state_of (Download_transfer env s uri p fname d retry timeout pb ranges sz cl))))"
proof (cases "NewRequest_err env uri")
  case (Some e)
  with assms show ?thesis by (simp add: Download_transfer_def)
next
  case None
  let ?req = "transfer_request uri ranges sz"
  let ?s1 = "log (EvDo timeout ?req) s"
  show ?thesis
  proof (cases "client_Do env (now s) timeout ?req")
    case (Inl e)
    with None assms show ?thesis by (simp add: Download_transfer_def Let_def)
  next
    case (Inr resp)
    show ?thesis
    proof (cases "StatusCode resp < 200 \<or> 300 \<le> StatusCode resp")
      case True
      with None Inr assms show ?thesis by (auto simp: Download_transfer_def Let_def)
    next
      case False
      let ?out = "Download_copy env ?s1 p fname d retry timeout pb sz cl resp"
      from False None Inr have eq:
        "Download_transfer env s uri p fname d retry timeout pb ranges sz cl = ?out"
        by (auto simp: Download_transfer_def Let_def)
      have "files ?s1 p = None" using assms by simp
      from Download_copy_fresh [OF this, of env fname d retry timeout pb sz cl resp]
      show ?thesis unfolding eq
        by (auto simp: new_events_log dest: in_set_dropD)
    qed
  qed
qed

text \<open>
  Claim C5. When the probe reports no range support and a file exists at the resolved
  target, the events of the invocation are those up to the probe, none of which opens or
  writes a file, then the removal of that file, then the rest. When the removal fails the
  invocation ends there: it recurses if a retry is left and returns the error of the
  removal otherwise. When it succeeds, the file is absent at the end of the invocation or
  holds exactly the bytes one of the later events wrote, none of the old ones.
\<close>

theorem stale_file_removed_before_writing:
  assumes "resolve target = Inr (fname0, entension, d)"
    and "parse_msgs msgs = Inr (retry, timeout, pb)"
    and "http_Get env (now (at_probe env s target msgs d)) uri = Inr hresp"
    and "\<not> supports_ranges hresp"
    and "infer env hresp fname0 entension d target = (fname, p)"
    and "files s p = Some bs"
    and "s2 = log (EvGet uri) (at_probe env s target msgs d)"
    and "s' = state_of (Download_body env s uri target msgs)"
  shows "new_events s s' = new_events s s2 @ EvRemove p # new_events (log (EvRemove p) s2) s' \<and>
     filter is_write (new_events s s2) = [] \<and>
     (\<forall>e. Remove_err env (now s2) p = Some e \<longrightarrow>
        Download_body env s uri target msgs
          = (if 0 < retry then Recurse p (retry - 1) timeout pb (log (EvRemove p) s2)
             else Return (Inl (RemoveFailed e)) (log (EvRemove p) s2))) \<and>
     (Remove_err env (now s2) p = None \<longrightarrow>
        files s' p = None \<or>
        (\<exists>data. files s' p = Some data \<and> EvWrite p data \<in> set (new_events (log (EvRemove p) s2) s')))"
proof -
  let ?pre = "EvCall target msgs # (if IsDir s d then [] else [EvMkdirAll d]) @ [EvGet uri]"
  have pre: "trace s2 = trace s @ ?pre" by (simp add: assms(7) trace_at_probe)
  then have ne2: "new_events s s2 = ?pre" by (rule new_events_append)
  have w: "filter is_write (new_events s s2) = []" by (simp add: ne2)
  have f2: "files s2 p = Some bs" using assms(6,7) by simp
  have body: "Download_body env s uri target msgs
      = Download_plan env s2 uri target fname0 entension d retry timeout pb hresp"
    unfolding assms(7) by (rule Download_body_probe_ok [OF assms(1,2,3)])
  show ?thesis
  proof (cases "Remove_err env (now s2) p")
    case (Some e)
    from existing_file_remove_failed [OF f2 Some] assms(4)
    have "existing_file env s2 p (supports_ranges hresp) = (Some e, 0, log (EvRemove p) s2)" by simp
    from Download_plan_remove_failed [OF assms(5) this] body
    have out: "Download_body env s uri target msgs
        = retry_or_fail retry p timeout pb (log (EvRemove p) s2) (RemoveFailed e)"
      by simp
    then have s': "s' = log (EvRemove p) s2" by (simp add: assms(8))
    have "new_events s s' = ?pre @ [EvRemove p]"
      by (rule new_events_append) (simp add: s' pre)
    moreover have "new_events (log (EvRemove p) s2) s' = []" by (simp add: s' new_events_def)
    ultimately show ?thesis using w Some out ne2 by (simp add: retry_or_fail_def)
  next
    case None
    let ?s3 = "log (EvRemove p) (s2\<lparr>files := (files s2)(p := None)\<rparr>)"
    from existing_file_removed [OF f2 None] assms(4)
    have ex: "existing_file env s2 p (supports_ranges hresp) = (None, 0, ?s3)" by simp
    have t3: "trace ?s3 = trace s2 @ [EvRemove p]" by simp
    have len: "length (trace (log (EvRemove p) s2)) = length (trace ?s3)" by simp
    have same: "new_events (log (EvRemove p) s2) x = new_events ?s3 x" for x
      by (simp add: new_events_def)
    have f3: "files ?s3 p = None" by simp
    have main: "(\<exists>post. trace s' = trace ?s3 @ post) \<and>
        (files s' p = None \<or>
         (\<exists>data. files s' p = Some data \<and> EvWrite p data \<in> set (new_events ?s3 s')))"
    proof (cases "0 = ContentLength hresp")
      case True
      with ex have "existing_file env s2 p (supports_ranges hresp) = (None, ContentLength hresp, ?s3)"
        by simp
      from Download_plan_skip [OF assms(5) this] body have "s' = ?s3" by (simp add: assms(8))
      then show ?thesis by simp
    next
      case False
      from Download_plan_transfer [OF assms(5) ex False] body
      have out: "Download_body env s uri target msgs
          = Download_transfer env ?s3 uri p fname d retry timeout pb (supports_ranges hresp) 0
              (ContentLength hresp)"
        by simp
      from Download_transfer_events [of env ?s3 uri p fname d retry timeout pb "supports_ranges hresp" 0
        "ContentLength hresp"] out
      have "\<exists>post. trace s' = trace ?s3 @ post" by (auto simp: assms(8))
      moreover from Download_transfer_fresh [OF f3, of env uri fname d retry timeout pb
        "supports_ranges hresp" 0 "ContentLength hresp"] out
      have "files s' p = None \<or>
         (\<exists>data. files s' p = Some data \<and> EvWrite p data \<in> set (new_events ?s3 s'))"
        by (simp add: assms(8))
      ultimately show ?thesis by simp
    qed
    then obtain post where post: "trace s' = trace ?s3 @ post" by blast
    from pre post have "trace s' = trace s @ ?pre @ EvRemove p # post" by simp
    then have a: "new_events s s' = ?pre @ EvRemove p # post" by (rule new_events_append)
    from post have b: "new_events ?s3 s' = post" by (rule new_events_append)
    from a b w None main ne2 show ?thesis by (simp add: same)
  qed
qed

theorem stale_file_removed_before_writing_witness:
  "resolve ''/tmp/f.bin'' = Inr (''f'', ''.bin'', ''/tmp'') \<and>
   parse_msgs [] = Inr (0, 300, False) \<and>
   \<not> supports_ranges (probe_of [] 3) \<and>
   files (state_with_file ''/tmp/f.bin'' [9, 9]) ''/tmp/f.bin'' = Some [9, 9] \<and>
   new_events (state_with_file ''/tmp/f.bin'' [9, 9])
     (state_of (Download_body (steady_env (Inr (probe_of [] 3)) (Inr (answer_of 200 [1, 2, 3])))
        (state_with_file ''/tmp/f.bin'' [9, 9]) ''http://h/f'' ''/tmp/f.bin'' []))
     = [EvCall ''/tmp/f.bin'' [], EvGet ''http://h/f'',
        EvRemove ''/tmp/f.bin'', EvDo 300 (transfer_request ''http://h/f'' False 0),
        EvOpenFile ''/tmp/f.bin'', EvWrite ''/tmp/f.bin'' [1, 2, 3]] \<and>
   Download_body (steady_env (Inr (probe_of [] 3)) (Inr (answer_of 200 [1, 2, 3])))
       (state_with_file ''/tmp/f.bin'' [9, 9]) ''http://h/f'' ''/tmp/f.bin'' []
     = Return (Inr \<lparr>filename = ''f'', dir = ''/tmp'', path = ''/tmp/f.bin''\<rparr>)
        \<lparr>files = [''/tmp/f.bin'' \<mapsto> [1, 2, 3]], dirs = {''/tmp''},
         trace = [EvCall ''/tmp/f.bin'' [], EvGet ''http://h/f'',
           EvRemove ''/tmp/f.bin'', EvDo 300 (transfer_request ''http://h/f'' False 0),
           EvOpenFile ''/tmp/f.bin'', EvWrite ''/tmp/f.bin'' [1, 2, 3]]\<rparr> \<and>
   Download_body (remove_denied (steady_env (Inr (probe_of [] 3)) (Inr (answer_of 200 [1, 2, 3]))))
       (state_with_file ''/tmp/f.bin'' [9, 9]) ''http://h/f'' ''/tmp/f.bin'' [IntArg 1]
     = Recurse ''/tmp/f.bin'' 0 300 False
        \<lparr>files = [''/tmp/f.bin'' \<mapsto> [9, 9]], dirs = {''/tmp''},
         trace = [EvCall ''/tmp/f.bin'' [IntArg 1], EvGet ''http://h/f'',
           EvRemove ''/tmp/f.bin'']\<rparr> \<and>
   Download_body (remove_denied (steady_env (Inr (probe_of [] 3)) (Inr (answer_of 200 [1, 2, 3]))))
       (state_with_file ''/tmp/f.bin'' [9, 9]) ''http://h/f'' ''/tmp/f.bin'' []
     = Return (Inl (RemoveFailed ''permission denied''))
        \<lparr>files = [''/tmp/f.bin'' \<mapsto> [9, 9]], dirs = {''/tmp''},
         trace = [EvCall ''/tmp/f.bin'' [], EvGet ''http://h/f'', EvRemove ''/tmp/f.bin'']\<rparr>"
proof -
  let ?h = "probe_of [] 3"
  let ?env = "steady_env (Inr ?h) (Inr (answer_of 200 [1, 2, 3]))"
  let ?s = "state_with_file ''/tmp/f.bin'' [9, 9]"
  let ?s2 = "log (EvGet ''http://h/f'') (at_probe ?env ?s ''/tmp/f.bin'' [] ''/tmp'')"
  let ?s' = "state_of (Download_body ?env ?s ''http://h/f'' ''/tmp/f.bin'' [])"
  have h1: "resolve ''/tmp/f.bin'' = Inr (''f'', ''.bin'', ''/tmp'')" by (simp add: run)
  have h2: "parse_msgs [] = Inr (0, 300, False)" by (simp add: run)
  have h3: "http_Get ?env (now (at_probe ?env ?s ''/tmp/f.bin'' [] ''/tmp'')) ''http://h/f'' = Inr ?h"
    by (simp add: steady_env_def)
  have h4: "\<not> supports_ranges ?h" by (simp add: run)
  have h5: "infer ?env ?h ''f'' ''.bin'' ''/tmp'' ''/tmp/f.bin'' = (''f'', ''/tmp/f.bin'')"
    by (simp add: run)
  have h6: "files ?s ''/tmp/f.bin'' = Some [9, 9]" by (simp add: run)
  have body: "Download_body ?env ?s ''http://h/f'' ''/tmp/f.bin'' []
     = Return (Inr \<lparr>filename = ''f'', dir = ''/tmp'', path = ''/tmp/f.bin''\<rparr>)
        \<lparr>files = [''/tmp/f.bin'' \<mapsto> [1, 2, 3]], dirs = {''/tmp''},
         trace = [EvCall ''/tmp/f.bin'' [], EvGet ''http://h/f'',
           EvRemove ''/tmp/f.bin'', EvDo 300 (transfer_request ''http://h/f'' False 0),
           EvOpenFile ''/tmp/f.bin'', EvWrite ''/tmp/f.bin'' [1, 2, 3]]\<rparr>"
    by (simp add: run)
  have pre: "new_events ?s ?s2 = [EvCall ''/tmp/f.bin'' [], EvGet ''http://h/f'']"
    by (simp add: run)
  have post: "new_events (log (EvRemove ''/tmp/f.bin'') ?s2) ?s'
      = [EvDo 300 (transfer_request ''http://h/f'' False 0), EvOpenFile ''/tmp/f.bin'',
         EvWrite ''/tmp/f.bin'' [1, 2, 3]]"
    unfolding body by (simp add: run)
  from stale_file_removed_before_writing [OF h1 h2 h3 h4 h5 h6 refl refl]
  have "new_events ?s ?s' = new_events ?s ?s2 @ EvRemove ''/tmp/f.bin'' #
      new_events (log (EvRemove ''/tmp/f.bin'') ?s2) ?s'"
    by blast
  then have "new_events ?s ?s' = [EvCall ''/tmp/f.bin'' [], EvGet ''http://h/f'',
        EvRemove ''/tmp/f.bin'', EvDo 300 (transfer_request ''http://h/f'' False 0),
        EvOpenFile ''/tmp/f.bin'', EvWrite ''/tmp/f.bin'' [1, 2, 3]]"
    by (simp only: pre post append.simps)
  moreover have "Download_body (remove_denied ?env) ?s ''http://h/f'' ''/tmp/f.bin'' [IntArg 1]
     = Recurse ''/tmp/f.bin'' 0 300 False
        \<lparr>files = [''/tmp/f.bin'' \<mapsto> [9, 9]], dirs = {''/tmp''},
         trace = [EvCall ''/tmp/f.bin'' [IntArg 1], EvGet ''http://h/f'',
           EvRemove ''/tmp/f.bin'']\<rparr>"
    by (simp add: run)
  moreover have "Download_body (remove_denied ?env) ?s ''http://h/f'' ''/tmp/f.bin'' []
     = Return (Inl (RemoveFailed ''permission denied''))
        \<lparr>files = [''/tmp/f.bin'' \<mapsto> [9, 9]], dirs = {''/tmp''},
         trace = [EvCall ''/tmp/f.bin'' [], EvGet ''http://h/f'', EvRemove ''/tmp/f.bin'']\<rparr>"
    by (simp add: run)
  ultimately show ?thesis using h1 h2 h4 h6 body by simp
qed

section \<open>The extension inferred from the content type\<close>

lemma resolve_tmp_downloads: "resolve ''/tmp/downloads'' = Inr (''downloads'', '''', ''/tmp'')"
  by (simp add: run)

definition png_probe :: hresponse where
  "png_probe = probe_of [(''Content-Type'', ''image/png'')] 3"

lemma Download_copy_Recurse_target:
  "Download_copy env s p fname d retry timeout pb sz cl resp = Recurse t' r' to' pb' s' \<Longrightarrow> t' = p"
  by (auto simp: Download_copy_def Let_def split: prod.splits option.splits if_splits
       dest!: retry_or_fail_Recurse)

lemma Download_transfer_Recurse_target:
  "Download_transfer env s uri p fname d retry timeout pb ranges sz cl = Recurse t' r' to' pb' s' \<Longrightarrow>
   t' = p"
  by (auto simp: Download_transfer_def Let_def split: option.splits sum.splits if_splits
       dest!: retry_or_fail_Recurse Download_copy_Recurse_target)

lemma Download_plan_Recurse_target:
  "Download_plan env s uri target fname0 entension d retry timeout pb hresp = Recurse t' r' to' pb' s' \<Longrightarrow>
   t' = snd (infer env hresp fname0 entension d target)"
  by (auto simp: Download_plan_def Let_def split: prod.splits option.splits if_splits
       dest!: retry_or_fail_Recurse Download_transfer_Recurse_target)

lemma Download_body_Recurse_target:
  assumes "resolve target = Inr (fname0, entension, d)"
    and "Download_body env s uri target msgs = Recurse t' r' to' pb' s'"
  shows "t' = target \<or>
     (\<exists>hresp. http_Get env (now (at_probe env s target msgs d)) uri = Inr hresp \<and>
        t' = snd (infer env hresp fname0 entension d target))"
proof -
  from assms obtain retry timeout pb where p: "parse_msgs msgs = Inr (retry, timeout, pb)"
    by (cases "parse_msgs msgs") (auto simp: Download_body_def Let_def)
  show ?thesis
  proof (cases "http_Get env (now (at_probe env s target msgs d)) uri")
    case (Inl e)
    from Download_body_probe_failed [OF assms(1) p Inl] assms(2)
    have "retry_or_fail retry target timeout pb (log (EvGet uri) (at_probe env s target msgs d))
        (ProbeFailed e) = Recurse t' r' to' pb' s'"
      by simp
    then show ?thesis by (auto dest!: retry_or_fail_Recurse)
  next
    case (Inr hresp)
    from Download_body_probe_ok [OF assms(1) p Inr] assms(2)
    have "Download_plan env (log (EvGet uri) (at_probe env s target msgs d)) uri target fname0
        entension d retry timeout pb hresp = Recurse t' r' to' pb' s'"
      by simp
    from Download_plan_Recurse_target [OF this] Inr show ?thesis by blast
  qed
qed

lemma Download_body_Inr_result:
  assumes "resolve target = Inr (fname0, entension, d)"
    and "Download_body env s uri target msgs = Return (Inr res) s'"
  shows "\<exists>hresp. http_Get env (now (at_probe env s target msgs d)) uri = Inr hresp \<and>
     res = \<lparr>filename = fst (infer env hresp fname0 entension d target), dir = d,
            path = snd (infer env hresp fname0 entension d target)\<rparr>"
proof -
  from assms obtain retry timeout pb where p: "parse_msgs msgs = Inr (retry, timeout, pb)"
    by (cases "parse_msgs msgs") (auto simp: Download_body_def Let_def)
  show ?thesis
  proof (cases "http_Get env (now (at_probe env s target msgs d)) uri")
    case (Inl e)
    from Download_body_probe_failed [OF assms(1) p Inl] assms(2)
    have "retry_or_fail retry target timeout pb (log (EvGet uri) (at_probe env s target msgs d))
        (ProbeFailed e) = Return (Inr res) s'"
      by simp
    then show ?thesis by (auto dest!: retry_or_fail_Return)
  next
    case (Inr hresp)
    from Download_body_probe_ok [OF assms(1) p Inr] assms(2)
    have "Download_plan env (log (EvGet uri) (at_probe env s target msgs d)) uri target fname0
        entension d retry timeout pb hresp = Return (Inr res) s'"
      by simp
    from Download_plan_Inr [OF this surjective_pairing] Inr show ?thesis by blast
  qed
qed

lemma resolve_tmp_downloads_png:
  "resolve ''/tmp/downloads.png'' = Inr (''downloads'', ''.png'', ''/tmp'')"
  by (simp add: run)

lemma infer_png:
  "ExtensionsByType env ''image/png'' = Some (''.png'' # exts) \<Longrightarrow>
   Header_Get hresp ''Content-Type'' = ''image/png'' \<Longrightarrow>
   infer env hresp ''downloads'' '''' ''/tmp'' ''/tmp/downloads''
     = (''downloads.png'', ''/tmp/downloads.png'')"
  by (simp add: infer_def)

lemma infer_has_extension:
  "entension \<noteq> '''' \<Longrightarrow> infer env hresp fname entension d target = (fname, target)"
  by (simp add: infer_def)

lemma Download_tmp_downloads_result:
  "target = ''/tmp/downloads'' \<or> target = ''/tmp/downloads.png'' \<Longrightarrow>
   ExtensionsByType env ''image/png'' = Some (''.png'' # exts) \<Longrightarrow>
   \<forall>t h. http_Get env t uri = Inr h \<longrightarrow> Header_Get h ''Content-Type'' = ''image/png'' \<Longrightarrow>
   Download env s uri target msgs = (Inr res, s') \<Longrightarrow>
   dir res = ''/tmp'' \<and> path res = ''/tmp/downloads.png''"
proof (induction env s uri target msgs rule: Download.induct)
  case (1 env s uri target msgs)
  note mime = "1.prems"(2) and probes = "1.prems"(3)
  obtain fname0 entension where res: "resolve target = Inr (fname0, entension, ''/tmp'')"
    and inf: "\<And>hresp. http_Get env (now (at_probe env s target msgs ''/tmp'')) uri = Inr hresp \<Longrightarrow>
        snd (infer env hresp fname0 entension ''/tmp'' target) = ''/tmp/downloads.png''"
  proof (cases "target = ''/tmp/downloads''")
    case True
    show ?thesis
    proof (rule that)
      show "resolve target = Inr (''downloads'', '''', ''/tmp'')"
        using True resolve_tmp_downloads by simp
      show "snd (infer env hresp ''downloads'' '''' ''/tmp'' target) = ''/tmp/downloads.png''"
        if "http_Get env (now (at_probe env s target msgs ''/tmp'')) uri = Inr hresp" for hresp
        using that probes True infer_png [OF mime, of hresp] by simp
    qed
  next
    case False
    with "1.prems"(1) have t: "target = ''/tmp/downloads.png''" by simp
    show ?thesis
    proof (rule that)
      show "resolve target = Inr (''downloads'', ''.png'', ''/tmp'')"
        using t resolve_tmp_downloads_png by simp
      show "snd (infer env hresp ''downloads'' ''.png'' ''/tmp'' target) = ''/tmp/downloads.png''" for hresp
        using t by (simp add: infer_has_extension)
    qed
  qed
  show ?case
  proof (cases "Download_body env s uri target msgs")
    case (Return r s0)
    with "1.prems"(4) have "Download_body env s uri target msgs = Return (Inr res) s'"
      by (simp add: Download.simps)
    from Download_body_Inr_result [OF res this] inf show ?thesis by auto
  next
    case (Recurse t' r' to' pb' s1)
    from Download_body_Recurse_target [OF res Recurse] inf "1.prems"(1)
    have t': "t' = ''/tmp/downloads'' \<or> t' = ''/tmp/downloads.png''" by auto
    from "1.prems"(4) Recurse have "Download env s1 uri t' [IntArg r', IntArg to', BoolArg pb'] = (Inr res, s')"
      by (simp add: Download.simps)
    from "1.IH" [OF Recurse t' mime probes this] show ?thesis .
  qed
qed

lemma Download_single_attempt:
  assumes "Download env s uri target msgs = (r, s')" and "attempts (new_events s s') = 1"
  shows "Download_body env s uri target msgs = Return r s'"
proof (cases "Download_body env s uri target msgs")
  case (Return r0 s0)
  with assms(1) show ?thesis by (simp add: Download.simps)
next
  case (Recurse t' r' to' pb' s1)
  obtain evs1 where e1:
    "trace (state_of (Download_body env s uri target msgs)) = trace s @ EvCall target msgs # evs1"
    using Download_body_trace by blast
  from assms(1) Recurse have "Download env s1 uri t' [IntArg r', IntArg to', BoolArg pb'] = (r, s')"
    by (simp add: Download.simps)
  from Download_attempts [OF this] obtain evs2 where e2: "trace s' = trace s1 @ evs2" "1 \<le> attempts evs2"
    by blast
  from e1 e2 Recurse have "trace s' = trace s @ EvCall target msgs # evs1 @ evs2" by simp
  then have "new_events s s' = EvCall target msgs # evs1 @ evs2" by (rule new_events_append)
  with e2(2) have "2 \<le> attempts (new_events s s')" by (simp add: attempts_def)
  with assms(2) show ?thesis by simp
qed

text \<open>
  Claim C7, as amended. For the target \<open>/tmp/downloads\<close> and probe responses of content
  type \<open>image/png\<close>, with a MIME table whose first extension for that type is \<open>.png\<close>:
  every result the call returns has the full path \<open>/tmp/downloads.png\<close> and the directory
  \<open>/tmp\<close>, the part of the target before its last separator (the last element of the
  target is the base of the file name, not a directory); and when the result comes from
  the first invocation, the call having made a single attempt, its file name is
  \<open>downloads.png\<close>.
\<close>

theorem tmp_downloads_resolves_in_tmp:
  assumes "ExtensionsByType env ''image/png'' = Some (''.png'' # exts)"
    and "\<forall>t h. http_Get env t uri = Inr h \<longrightarrow> Header_Get h ''Content-Type'' = ''image/png''"
    and "Download env s uri ''/tmp/downloads'' msgs = (Inr res, s')"
  shows "path res = ''/tmp/downloads.png'' \<and> dir res = ''/tmp'' \<and>
     (attempts (new_events s s') = 1 \<longrightarrow> filename res = ''downloads.png'')"
proof -
  from Download_tmp_downloads_result [OF _ assms(1,2,3)]
  have a: "dir res = ''/tmp'' \<and> path res = ''/tmp/downloads.png''" by simp
  have b: "filename res = ''downloads.png''" if "attempts (new_events s s') = 1"
  proof -
    from Download_single_attempt [OF assms(3) that]
    have "Download_body env s uri ''/tmp/downloads'' msgs = Return (Inr res) s'" .
    from Download_body_Inr_result [OF resolve_tmp_downloads this] obtain hresp where
      h: "http_Get env (now (at_probe env s ''/tmp/downloads'' msgs ''/tmp'')) uri = Inr hresp"
      and r: "res = \<lparr>filename = fst (infer env hresp ''downloads'' '''' ''/tmp'' ''/tmp/downloads''),
            dir = ''/tmp'', path = snd (infer env hresp ''downloads'' '''' ''/tmp'' ''/tmp/downloads'')\<rparr>"
      by blast
    from h assms(2) have "Header_Get hresp ''Content-Type'' = ''image/png''" by blast
    from infer_png [OF assms(1) this] r show ?thesis by simp
  qed
  from a b show ?thesis by simp
qed

theorem tmp_downloads_resolves_in_tmp_witness:
  "ExtensionsByType (steady_env (Inr png_probe) (Inr (answer_of 200 [1, 2, 3]))) ''image/png''
     = Some [''.png''] \<and>
   (\<forall>t. http_Get (steady_env (Inr png_probe) (Inr (answer_of 200 [1, 2, 3]))) t ''http://h/pic''
      = Inr png_probe) \<and>
   Header_Get png_probe ''Content-Type'' = ''image/png'' \<and>
   Download (steady_env (Inr png_probe) (Inr (answer_of 200 [1, 2, 3]))) empty_state
       ''http://h/pic'' ''/tmp/downloads'' [IntArg 2]
     = (Inr \<lparr>filename = ''downloads.png'', dir = ''/tmp'', path = ''/tmp/downloads.png''\<rparr>,
        \<lparr>files = [''/tmp/downloads.png'' \<mapsto> [1, 2, 3]], dirs = {''/tmp''},
         trace = [EvCall ''/tmp/downloads'' [IntArg 2], EvMkdirAll ''/tmp'', EvGet ''http://h/pic'',
           EvDo 300 (transfer_request ''http://h/pic'' False 0),
           EvOpenFile ''/tmp/downloads.png'', EvWrite ''/tmp/downloads.png'' [1, 2, 3]]\<rparr>) \<and>
   attempts (new_events empty_state (snd (Download (steady_env (Inr png_probe) (Inr (answer_of 200 [1, 2, 3])))
       empty_state ''http://h/pic'' ''/tmp/downloads'' [IntArg 2]))) = 1"
proof -
  let ?env = "steady_env (Inr png_probe) (Inr (answer_of 200 [1, 2, 3]))"
  let ?s' = "\<lparr>files = [''/tmp/downloads.png'' \<mapsto> [1, 2, 3 :: byte]], dirs = {''/tmp''},
         trace = [EvCall ''/tmp/downloads'' [IntArg 2], EvMkdirAll ''/tmp'', EvGet ''http://h/pic'',
           EvDo 300 (transfer_request ''http://h/pic'' False 0),
           EvOpenFile ''/tmp/downloads.png'', EvWrite ''/tmp/downloads.png'' [1, 2, 3]]\<rparr>"
  have h1: "ExtensionsByType ?env ''image/png'' = Some (''.png'' # [])" by (simp add: run)
  have h2a: "\<forall>t. http_Get ?env t ''http://h/pic'' = Inr png_probe" by (simp add: steady_env_def)
  have h2b: "Header_Get png_probe ''Content-Type'' = ''image/png''" by (simp add: png_probe_def run)
  have h2: "\<forall>t h. http_Get ?env t ''http://h/pic'' = Inr h \<longrightarrow> Header_Get h ''Content-Type'' = ''image/png''"
    using h2a h2b by auto
  obtain res where D: "Download ?env empty_state ''http://h/pic'' ''/tmp/downloads'' [IntArg 2]
      = (Inr res, ?s')"
    by (simp add: png_probe_def run)
  have a: "attempts (new_events empty_state ?s') = 1" by (simp add: run)
  from tmp_downloads_resolves_in_tmp [OF h1 h2 D] a
  have "path res = ''/tmp/downloads.png''" "dir res = ''/tmp''" "filename res = ''downloads.png''"
    by simp_all
  then have "res = \<lparr>filename = ''downloads.png'', dir = ''/tmp'', path = ''/tmp/downloads.png''\<rparr>"
    by (cases res) simp
  with D h1 h2a h2b a show ?thesis by simp
qed

text \<open>
  The claim as the spec states it (the file resides in the directory \<open>/tmp/downloads\<close>)
  fails: the call returns the directory \<open>/tmp\<close> and writes \<open>/tmp/downloads.png\<close>.
\<close>

theorem tmp_downloads_directory_counterexample:
  "Header_Get png_probe ''Content-Type'' = ''image/png'' \<and>
   Download (steady_env (Inr png_probe) (Inr (answer_of 200 [1, 2, 3]))) empty_state
       ''http://h/pic'' ''/tmp/downloads'' []
     = (Inr \<lparr>filename = ''downloads.png'', dir = ''/tmp'', path = ''/tmp/downloads.png''\<rparr>,
        \<lparr>files = [''/tmp/downloads.png'' \<mapsto> [1, 2, 3]], dirs = {''/tmp''},
         trace = [EvCall ''/tmp/downloads'' [], EvMkdirAll ''/tmp'', EvGet ''http://h/pic'',
           EvDo 300 (transfer_request ''http://h/pic'' False 0),
           EvOpenFile ''/tmp/downloads.png'', EvWrite ''/tmp/downloads.png'' [1, 2, 3]]\<rparr>) \<and>
   dir (projr (fst (Download (steady_env (Inr png_probe) (Inr (answer_of 200 [1, 2, 3]))) empty_state
       ''http://h/pic'' ''/tmp/downloads'' []))) \<noteq> ''/tmp/downloads''"
  by (simp add: png_probe_def run)

section \<open>The size mismatch and the retries\<close>

text \<open>
  Claim C1 at a failing input. The source fails at every time in the same way: the probe
  declares 5 bytes, the transfer delivers 3 and ends without error. Whatever the retry
  count \<open>N\<close>, the call makes a single attempt and returns the size-mismatch error of
  line 289, where the claim has \<open>N + 1\<close> attempts.
\<close>

theorem mismatching_source_gets_one_attempt:
  "Download (steady_env (Inr (probe_of [] 5)) (Inr (answer_of 200 [1, 2, 3]))) empty_state
       ''http://h/f'' ''/tmp/f.bin'' [IntArg N]
     = (Inl SizeMismatch,
        \<lparr>files = [''/tmp/f.bin'' \<mapsto> [1, 2, 3]], dirs = {''/tmp''},
         trace = [EvCall ''/tmp/f.bin'' [IntArg N], EvMkdirAll ''/tmp'', EvGet ''http://h/f'',
           EvDo 300 (transfer_request ''http://h/f'' False 0),
           EvOpenFile ''/tmp/f.bin'', EvWrite ''/tmp/f.bin'' [1, 2, 3]]\<rparr>) \<and>
   attempts (new_events empty_state
     (snd (Download (steady_env (Inr (probe_of [] 5)) (Inr (answer_of 200 [1, 2, 3]))) empty_state
       ''http://h/f'' ''/tmp/f.bin'' [IntArg N]))) = 1"
  by (simp add: run)

text \<open>
  Claim C3 at a failing input. The probe declares 5 bytes, the transfer delivers 3 and
  ends without error, three retries are left: the call returns the size-mismatch error of
  line 289 after a single attempt. Against the same probe a response of status 500 is
  tried four times before its error is returned.
\<close>

theorem size_mismatch_returned_with_retries_left:
  "Download (steady_env (Inr (probe_of [] 5)) (Inr (answer_of 200 [1, 2, 3]))) empty_state
       ''http://h/f'' ''/tmp/f.bin'' [IntArg 3]
     = (Inl SizeMismatch,
        \<lparr>files = [''/tmp/f.bin'' \<mapsto> [1, 2, 3]], dirs = {''/tmp''},
         trace = [EvCall ''/tmp/f.bin'' [IntArg 3], EvMkdirAll ''/tmp'', EvGet ''http://h/f'',
           EvDo 300 (transfer_request ''http://h/f'' False 0),
           EvOpenFile ''/tmp/f.bin'', EvWrite ''/tmp/f.bin'' [1, 2, 3]]\<rparr>) \<and>
   attempts (trace (snd (Download (steady_env (Inr (probe_of [] 5)) (Inr (answer_of 200 [1, 2, 3])))
       empty_state ''http://h/f'' ''/tmp/f.bin'' [IntArg 3]))) = 1 \<and>
   fst (Download (steady_env (Inr (probe_of [] 5)) (Inr (answer_of 500 []))) empty_state
       ''http://h/f'' ''/tmp/f.bin'' [IntArg 3]) = Inl (BadStatus 500 ''500'') \<and>
   attempts (trace (snd (Download (steady_env (Inr (probe_of [] 5)) (Inr (answer_of 500 [])))
       empty_state ''http://h/f'' ''/tmp/f.bin'' [IntArg 3]))) = 4"
  by (simp add: run)

end
